theory Spec2Isabelle
  imports Main "HOL-Library.Word" "HOL-Library.List_Lexorder" "HOL-Library.Char_ord"
    "HOL-Library.AList"
begin


unbundle bit_operations_syntax

section \<open>Bytes and strings\<close>

text \<open>
  A \<open>Uint8Array\<close> is a list of 8-bit words. A JavaScript string is modelled as a HOL
  \<open>string\<close>: a list of code units below 256. Strings are compared as JavaScript compares
  them (\<open><\<close>, \<open>>\<close> and the default \<open>Array.prototype.sort\<close>): lexicographically by
  code unit, which is the order of \<open>List_Lexorder\<close> over \<open>Char_ord\<close>.
\<close>

type_synonym byte = "8 word"
type_synonym bytes = "byte list"

text \<open>\<open>new TextEncoder().encode(s)\<close>: UTF-8, for code units below 256.\<close>

definition utf8_char :: "char \<Rightarrow> bytes" where
  "utf8_char c =
     (let n = (of_char c :: nat) in
      if n < 128 then [of_nat n]
      else [of_nat (192 + n div 64), of_nat (128 + n mod 64)])"

definition TextEncoder_encode :: "string \<Rightarrow> bytes" where
  "TextEncoder_encode s = concat (map utf8_char s)"

text \<open>\<open>b.toString(16).padStart(2, "0")\<close> for a byte \<open>b\<close>.\<close>

definition hex_digit :: "nat \<Rightarrow> char" where
  "hex_digit n = ''0123456789abcdef'' ! (n mod 16)"

definition hex_byte :: "byte \<Rightarrow> string" where
  "hex_byte b = [hex_digit (unat b div 16), hex_digit (unat b mod 16)]"

text \<open>Decimal notation of an integer, as \<open>Number.prototype.toString\<close> prints it.\<close>

fun decimal :: "nat \<Rightarrow> string" where
  "decimal n = (if n < 10 then [hex_digit n] else decimal (n div 10) @ [hex_digit (n mod 10)])"

declare decimal.simps [simp del]

definition Number_toString :: "int \<Rightarrow> string" where
  "Number_toString i = (if i < 0 then CHR ''-'' # decimal (nat (- i)) else decimal (nat i))"

section \<open>JSON values and \<open>JSON.stringify\<close>\<close>

text \<open>
  The plain data objects of the program are JSON values. An object is the list of its own
  enumerable properties in property order; its keys are distinct. Numbers are the integers
  (counts, sizes and the version): fractions and non-finite numbers are outside the model.
  A JavaScript number is a double: the source adds and prints integers exactly as long as
  they are safe integers, of magnitude at most \<open>2^53 - 1\<close>. Beyond that range a sum of the
  source is rounded, and from \<open>10^21\<close> a number is printed with an exponent; the
  integer sum and the decimal digits of the model are those of the source within the
  range only.
\<close>

datatype json =
    JNull
  | JBool bool
  | JNum int
  | JStr string
  | JArr "json list"
  | JObj "(string \<times> json) list"

text \<open>\<open>QuoteJSONString\<close> of ECMA-262: the two-character escapes, \<open>\u00xx\<close> for the other
  control characters, every other code unit as it is.\<close>

definition quote_char :: "char \<Rightarrow> string" where
  "quote_char c =
     (if c = CHR 0x08 then [CHR 0x5C, CHR ''b'']
      else if c = CHR 0x09 then [CHR 0x5C, CHR ''t'']
      else if c = CHR 0x0A then [CHR 0x5C, CHR ''n'']
      else if c = CHR 0x0C then [CHR 0x5C, CHR ''f'']
      else if c = CHR 0x0D then [CHR 0x5C, CHR ''r'']
      else if c = CHR 0x22 then [CHR 0x5C, CHR 0x22]
      else if c = CHR 0x5C then [CHR 0x5C, CHR 0x5C]
      else if (of_char c :: nat) < 32
        then [CHR 0x5C, CHR ''u'', CHR ''0'', CHR ''0'',
              hex_digit (of_char c div 16), hex_digit (of_char c mod 16)]
      else [c])"

definition QuoteJSONString :: "string \<Rightarrow> string" where
  "QuoteJSONString s = CHR 0x22 # concat (map quote_char s) @ [CHR 0x22]"

fun join :: "string \<Rightarrow> string list \<Rightarrow> string" where
  "join sep [] = []"
| "join sep [x] = x"
| "join sep (x # y # ys) = x @ sep @ join sep (y # ys)"

text \<open>The closing steps of \<open>SerializeJSONObject\<close> and \<open>SerializeJSONArray\<close>: \<open>stepback\<close> is
  the indent of the enclosing level, \<open>gap\<close> the unit of indentation.\<close>

definition wrap :: "string \<Rightarrow> string \<Rightarrow> string \<Rightarrow> string \<Rightarrow> string list \<Rightarrow> string" where
  "wrap l r gap stepback partial =
     (if partial = [] then l @ r
      else if gap = [] then l @ join '','' partial @ r
      else l @ [CHR 0x0A] @ (stepback @ gap)
           @ join ('','' @ [CHR 0x0A] @ (stepback @ gap)) partial
           @ [CHR 0x0A] @ stepback @ r)"

text \<open>
  \<open>SerializeJSONProperty\<close>. The state is the property list (\<open>None\<close> when the replacer is
  not an array), the gap and the current indent. With a property list, \<^emph>\<open>every\<close> object,
  nested ones too, is serialized by walking that list and emitting the listed keys the
  object has, in the list's order; without one, by walking the object's own keys. Arrays
  are serialized element by element either way.
\<close>

function SerializeJSONProperty :: "string list option \<Rightarrow> string \<Rightarrow> string \<Rightarrow> json \<Rightarrow> string" where
  "SerializeJSONProperty pl gap indent JNull = ''null''"
| "SerializeJSONProperty pl gap indent (JBool b) = (if b then ''true'' else ''false'')"
| "SerializeJSONProperty pl gap indent (JNum n) = Number_toString n"
| "SerializeJSONProperty pl gap indent (JStr s) = QuoteJSONString s"
| "SerializeJSONProperty pl gap indent (JArr xs) =
     wrap ''['' '']'' gap indent (map (SerializeJSONProperty pl gap (indent @ gap)) xs)"
| "SerializeJSONProperty pl gap indent (JObj ms) =
     wrap ''{'' ''}'' gap indent
       (concat (map (\<lambda>P. case map_of ms P of
                          None \<Rightarrow> []
                        | Some v \<Rightarrow>
                            [QuoteJSONString P @ '':'' @ (if gap = [] then [] else '' '')
                               @ SerializeJSONProperty pl gap (indent @ gap) v])
                    (case pl of Some K \<Rightarrow> K | None \<Rightarrow> map fst ms)))"
  by pat_completeness auto
termination
proof (relation "measure (\<lambda>(pl, gap, indent, v). size v)")
  show "wf (measure (\<lambda>(pl, gap, indent, v). size v))"
    by simp
next
  fix pl :: "string list option" and gap indent :: string and xs :: "json list" and x :: json
  assume "x \<in> set xs"
  then have "size x < Suc (size_list size xs)"
    by (induction xs) auto
  then show "((pl, gap, indent @ gap, x), (pl, gap, indent, JArr xs))
      \<in> measure (\<lambda>(pl, gap, indent, v). size v)"
    by simp
next
  fix pl :: "string list option" and gap indent :: string and ms :: "(string \<times> json) list"
    and P :: string and v :: json
  assume "map_of ms P = Some v"
  then have "(P, v) \<in> set ms"
    by (rule map_of_SomeD)
  then have "size v < Suc (size_list (size_prod (\<lambda>_. 0) size) ms)"
    by (induction ms) auto
  then show "((pl, gap, indent @ gap, v), (pl, gap, indent, JObj ms))
      \<in> measure (\<lambda>(pl, gap, indent, v). size v)"
    by simp
qed

text \<open>
  \<open>JSON.stringify(value, replacer, space)\<close>. An array replacer becomes the property list:
  its strings in order, each kept once (its first occurrence). A numeric \<open>space\<close> is that
  many blanks, at most ten.
\<close>

definition PropertyList :: "string list \<Rightarrow> string list" where
  "PropertyList replacer = rev (remdups (rev replacer))"

definition JSON_stringify :: "json \<Rightarrow> string list option \<Rightarrow> nat \<Rightarrow> string" where
  "JSON_stringify v replacer space =
     SerializeJSONProperty (map_option PropertyList replacer)
       (replicate (min 10 space) CHR '' '') [] v"

section \<open>The archive types (\<open>export/types.ts\<close>)\<close>

text \<open>
  \<open>HavenManifest\<close>. An optional property is an \<open>option\<close>; \<open>files\<close> is the list of the
  entries of the \<open>Record\<close> in property order. The two fields of a file entry and of a date
  range carry a prefix, since \<open>size\<close> and \<open>from\<close> are taken in Isabelle.
\<close>

record exported_by_t =
  user_id :: string
  username :: string
  identity_key :: string

record file_entry =
  fe_sha256 :: string
  fe_size :: int

record date_range_t =
  dr_from :: string
  dr_to :: string

datatype scope_t = Server | Channel | Dm

record HavenManifest =
  version :: int
  format :: string
  exported_by :: exported_by_t
  exported_at :: string
  scope :: "scope_t option"
  server_id :: "string option"
  channel_id :: "string option"
  instance_url :: string
  files :: "(string \<times> file_entry) list"
  message_count :: int
  date_range :: date_range_t
  user_signature :: "string option"
  server_signature :: "string option"

text \<open>
  \<open>HavenChannelExport\<close>, with the fields prefixed \<open>ch_\<close>. The builder reads the
  channel's name and type, the message count and the date range; the messages are only
  serialized, so they are kept as JSON values.
\<close>

record channel_t =
  ch_id :: string
  ch_name :: string
  ch_type :: string
  ch_encrypted :: bool
  ch_category :: "string option"
  ch_created_at :: string

record HavenChannelExport =
  ch_channel :: channel_t
  ch_exported_at :: string
  ch_exported_by :: string
  ch_message_count :: int
  ch_date_range :: date_range_t
  ch_messages :: "json list"

text \<open>The objects these records stand for, with the properties in the order in which
  the program's object literals and assignments create them.\<close>

definition optional :: "string \<Rightarrow> json option \<Rightarrow> (string \<times> json) list" where
  "optional k v = (case v of None \<Rightarrow> [] | Some x \<Rightarrow> [(k, x)])"

definition exported_by_object :: "exported_by_t \<Rightarrow> json" where
  "exported_by_object e =
     JObj [(''user_id'', JStr (user_id e)), (''username'', JStr (username e)),
           (''identity_key'', JStr (identity_key e))]"

definition file_entry_object :: "file_entry \<Rightarrow> json" where
  "file_entry_object e = JObj [(''sha256'', JStr (fe_sha256 e)), (''size'', JNum (fe_size e))]"

definition files_object :: "(string \<times> file_entry) list \<Rightarrow> json" where
  "files_object fs = JObj (map (\<lambda>(path, e). (path, file_entry_object e)) fs)"

definition date_range_object :: "date_range_t \<Rightarrow> json" where
  "date_range_object d = JObj [(''from'', JStr (dr_from d)), (''to'', JStr (dr_to d))]"

definition scope_string :: "scope_t \<Rightarrow> string" where
  "scope_string s = (case s of Server \<Rightarrow> ''server'' | Channel \<Rightarrow> ''channel'' | Dm \<Rightarrow> ''dm'')"

text \<open>A manifest as \<open>HavenArchiveBuilder.build\<close> lays it out: the object literal, then
  \<open>server_id\<close>, \<open>channel_id\<close> and \<open>scope\<close> where set, then the signatures.\<close>

definition manifest_object :: "HavenManifest \<Rightarrow> (string \<times> json) list" where
  "manifest_object m =
     [(''version'', JNum (version m)),
      (''format'', JStr (format m)),
      (''exported_by'', exported_by_object (exported_by m)),
      (''exported_at'', JStr (exported_at m)),
      (''instance_url'', JStr (instance_url m)),
      (''files'', files_object (files m)),
      (''message_count'', JNum (message_count m)),
      (''date_range'', date_range_object (date_range m))]
     @ optional ''server_id'' (map_option JStr (server_id m))
     @ optional ''channel_id'' (map_option JStr (channel_id m))
     @ optional ''scope'' (map_option (JStr \<circ> scope_string) (scope m))
     @ optional ''user_signature'' (map_option JStr (user_signature m))
     @ optional ''server_signature'' (map_option JStr (server_signature m))"

definition channel_object :: "channel_t \<Rightarrow> json" where
  "channel_object c =
     JObj ([(''id'', JStr (ch_id c)), (''name'', JStr (ch_name c)), (''type'', JStr (ch_type c)),
            (''encrypted'', JBool (ch_encrypted c))]
           @ optional ''category'' (map_option JStr (ch_category c))
           @ [(''created_at'', JStr (ch_created_at c))])"

definition channel_export_object :: "HavenChannelExport \<Rightarrow> json" where
  "channel_export_object e =
     JObj [(''channel'', channel_object (ch_channel e)),
           (''exported_at'', JStr (ch_exported_at e)),
           (''exported_by'', JStr (ch_exported_by e)),
           (''message_count'', JNum (ch_message_count e)),
           (''date_range'', date_range_object (ch_date_range e)),
           (''messages'', JArr (ch_messages e))]"

section \<open>The library functions the program imports\<close>

text \<open>
  The functions of libsodium, of \<open>crypto/utils.js\<close>, of fflate and of the JSON parser that
  the program calls are parameters of the model. A function that can throw returns an
  \<open>option\<close>, \<open>None\<close> standing for the exception. \<open>JSON_parse_manifest\<close> and
  \<open>JSON_parse_channel\<close> are \<open>JSON.parse(new TextDecoder().decode(data))\<close> read at the type
  the program casts the result to. \<open>now\<close> is the sequence of strings that successive
  calls of \<open>new Date().toISOString()\<close> return.
\<close>

record env =
  crypto_sign_detached :: "bytes \<Rightarrow> bytes \<Rightarrow> bytes option"
  crypto_sign_verify_detached :: "bytes \<Rightarrow> bytes \<Rightarrow> bytes \<Rightarrow> bool option"
  crypto_hash_sha256 :: "bytes \<Rightarrow> bytes"
  toBase64 :: "bytes \<Rightarrow> string"
  fromBase64 :: "string \<Rightarrow> bytes option"
  zipSync :: "(string \<times> bytes) list \<Rightarrow> bytes"
  unzipSync :: "bytes \<Rightarrow> (string \<times> bytes) list option"
  JSON_parse_manifest :: "bytes \<Rightarrow> HavenManifest option"
  JSON_parse_channel :: "bytes \<Rightarrow> HavenChannelExport option"
  now :: "nat \<Rightarrow> string"

section \<open>Signing (\<open>export/signing.ts\<close>)\<close>

text \<open>
  \<open>canonicalManifest\<close>: the rest pattern drops the two signature properties, and the
  sorted keys of what is left are handed to \<open>JSON.stringify\<close> as its replacer array.
\<close>

definition canonicalObject :: "(string \<times> json) list \<Rightarrow> string" where
  "canonicalObject manifest =
     (let rest = filter (\<lambda>(k, v). k \<noteq> ''user_signature'' \<and> k \<noteq> ''server_signature'') manifest
      in JSON_stringify (JObj rest) (Some (sort (map fst rest))) 0)"

definition canonicalManifest :: "HavenManifest \<Rightarrow> string" where
  "canonicalManifest manifest = canonicalObject (manifest_object manifest)"

definition signManifest :: "env \<Rightarrow> HavenManifest \<Rightarrow> bytes \<Rightarrow> string option" where
  "signManifest sodium manifest privateKey =
     (let message = TextEncoder_encode (canonicalManifest manifest) in
      case crypto_sign_detached sodium message privateKey of
        None \<Rightarrow> None
      | Some signature \<Rightarrow> Some (toBase64 sodium signature))"

text \<open>\<open>verifyManifest\<close>: whatever is thrown inside the \<open>try\<close> block, by the decoding of
  the signature or by libsodium, makes the result \<open>false\<close>.\<close>

definition verifyManifest :: "env \<Rightarrow> HavenManifest \<Rightarrow> string \<Rightarrow> bytes \<Rightarrow> bool" where
  "verifyManifest sodium manifest signature publicKey =
     (let message = TextEncoder_encode (canonicalManifest manifest) in
      case fromBase64 sodium signature of
        None \<Rightarrow> False
      | Some sig \<Rightarrow>
          (case crypto_sign_verify_detached sodium sig message publicKey of
             None \<Rightarrow> False
           | Some ok \<Rightarrow> ok))"

definition computeFileHash :: "env \<Rightarrow> bytes \<Rightarrow> string" where
  "computeFileHash sodium data = concat (map hex_byte (crypto_hash_sha256 sodium data))"

section \<open>The archive builder (\<open>export/archive.ts\<close>)\<close>

datatype archive_error = MissingManifest | MalformedManifest | Thrown

record ArchiveMetadata =
  exportedBy :: exported_by_t
  md_scope :: "scope_t option"
  serverId :: "string option"
  channelId :: "string option"
  instanceUrl :: string

text \<open>
  The fields of \<open>HavenArchiveBuilder\<close>. A \<open>Map\<close> and a plain object are both lists of
  entries in insertion order: \<open>Map.set\<close> and the assignment \<open>obj[k] = v\<close> replace the value
  of a key that is there, in its place, and append a new key otherwise, which is
  \<^const>\<open>AList.update\<close>.
\<close>

record HavenArchiveBuilder =
  metadata :: ArchiveMetadata
  channels :: "(string \<times> bytes) list"
  attachments :: "(string \<times> bytes) list"
  serverMeta :: "bytes option"
  auditLog :: "bytes option"
  messageCount :: int
  earliestDate :: "string option"
  latestDate :: "string option"

definition new_HavenArchiveBuilder :: "ArchiveMetadata \<Rightarrow> HavenArchiveBuilder" where
  "new_HavenArchiveBuilder md =
     \<lparr> metadata = md, channels = [], attachments = [], serverMeta = None, auditLog = None,
       messageCount = 0, earliestDate = None, latestDate = None \<rparr>"

text \<open>\<open>updateDateRange\<close>. \<open>!this.earliestDate\<close> holds of \<open>null\<close> and of the empty string.\<close>

definition updateDateRange :: "string \<Rightarrow> string \<Rightarrow> HavenArchiveBuilder \<Rightarrow> HavenArchiveBuilder" where
  "updateDateRange from to b =
     b \<lparr> earliestDate :=
           (case earliestDate b of
              None \<Rightarrow> Some from
            | Some e \<Rightarrow> if e = [] \<or> from < e then Some from else Some e),
         latestDate :=
           (case latestDate b of
              None \<Rightarrow> Some to
            | Some l \<Rightarrow> if l = [] \<or> to > l then Some to else Some l) \<rparr>"

text \<open>The character class \<open>[a-zA-Z0-9_-]\<close> and \<open>name.replace(/[^a-zA-Z0-9_-]/g, "_")\<close>.\<close>

definition slug_char :: "char \<Rightarrow> bool" where
  "slug_char c =
     (let n = (of_char c :: nat) in
      (97 \<le> n \<and> n \<le> 122) \<or> (65 \<le> n \<and> n \<le> 90) \<or> (48 \<le> n \<and> n \<le> 57)
      \<or> c = CHR ''_'' \<or> c = CHR ''-'')"

definition slug :: "string \<Rightarrow> string" where
  "slug name = map (\<lambda>c. if slug_char c then c else CHR ''_'') name"

definition channel_dir :: "HavenChannelExport \<Rightarrow> string" where
  "channel_dir channelExport =
     (if ch_type (ch_channel channelExport) = ''dm''
         \<or> ch_type (ch_channel channelExport) = ''group_dm''
      then ''dms'' else ''channels'')"

definition channel_key :: "HavenChannelExport \<Rightarrow> string" where
  "channel_key channelExport =
     channel_dir channelExport @ ''/'' @ slug (ch_name (ch_channel channelExport)) @ ''.json''"

definition channel_data :: "HavenChannelExport \<Rightarrow> bytes" where
  "channel_data channelExport =
     TextEncoder_encode (JSON_stringify (channel_export_object channelExport) None 2)"

text \<open>\<open>addChannel\<close>. The sum \<open>this.messageCount += channelExport.message_count\<close> is the
  integer sum while the counts and their running total are safe integers.\<close>

definition addChannel :: "HavenChannelExport \<Rightarrow> HavenArchiveBuilder \<Rightarrow> HavenArchiveBuilder" where
  "addChannel channelExport b =
     updateDateRange (dr_from (ch_date_range channelExport)) (dr_to (ch_date_range channelExport))
       (b \<lparr> channels := AList.update (channel_key channelExport) (channel_data channelExport)
                          (channels b),
            messageCount := messageCount b + ch_message_count channelExport \<rparr>)"

definition addAttachment :: "string \<Rightarrow> bytes \<Rightarrow> HavenArchiveBuilder \<Rightarrow> HavenArchiveBuilder" where
  "addAttachment ident data b =
     b \<lparr> attachments := AList.update (''attachments/'' @ ident @ ''.bin'') data (attachments b) \<rparr>"

text \<open>The server export and the audit log entries are only serialized: any JSON value.\<close>

definition addServerMeta :: "json \<Rightarrow> HavenArchiveBuilder \<Rightarrow> HavenArchiveBuilder" where
  "addServerMeta serverExport b =
     b \<lparr> serverMeta := Some (TextEncoder_encode (JSON_stringify serverExport None 2)) \<rparr>"

definition addAuditLog :: "json list \<Rightarrow> HavenArchiveBuilder \<Rightarrow> HavenArchiveBuilder" where
  "addAuditLog entries b =
     b \<lparr> auditLog := Some (TextEncoder_encode (JSON_stringify (JArr entries) None 2)) \<rparr>"

text \<open>The loops \<open>for (const [path, data] of ...) target[path] = ...\<close> of \<open>build\<close>.\<close>

definition assign_all :: "('a \<Rightarrow> 'b) \<Rightarrow> (string \<times> 'a) list \<Rightarrow> (string \<times> 'b) list \<Rightarrow> (string \<times> 'b) list" where
  "assign_all f entries target = fold (\<lambda>(path, data). AList.update path (f data)) entries target"

definition collect_files :: "HavenArchiveBuilder \<Rightarrow> (string \<times> bytes) list" where
  "collect_files b =
     (let files1 = assign_all id (channels b) [];
          files2 = assign_all id (attachments b) files1;
          files3 = (case serverMeta b of
                      None \<Rightarrow> files2
                    | Some data \<Rightarrow> AList.update ''server.json'' data files2)
      in case auditLog b of
           None \<Rightarrow> files3
         | Some data \<Rightarrow> AList.update ''audit-log.json'' data files3)"

definition file_hash_entry :: "env \<Rightarrow> bytes \<Rightarrow> file_entry" where
  "file_hash_entry sodium data =
     \<lparr> fe_sha256 = computeFileHash sodium data, fe_size = int (length data) \<rparr>"

text \<open>A metadata string is copied into the manifest when it is truthy: present and not
  empty. The manifest before it is signed:\<close>

definition truthy :: "string option \<Rightarrow> string option" where
  "truthy s = (case s of None \<Rightarrow> None | Some x \<Rightarrow> if x = [] then None else Some x)"

definition build_manifest :: "env \<Rightarrow> HavenArchiveBuilder \<Rightarrow> HavenManifest" where
  "build_manifest e b =
     \<lparr> version = 1,
       format = ''haven-export'',
       exported_by = exportedBy (metadata b),
       exported_at = now e 0,
       scope = md_scope (metadata b),
       server_id = truthy (serverId (metadata b)),
       channel_id = truthy (channelId (metadata b)),
       instance_url = instanceUrl (metadata b),
       files = assign_all (file_hash_entry e) (collect_files b) [],
       message_count = messageCount b,
       date_range =
         \<lparr> dr_from = (case earliestDate b of None \<Rightarrow> now e 1 | Some d \<Rightarrow> d),
           dr_to = (case latestDate b of
                      None \<Rightarrow> now e (if earliestDate b = None then 2 else 1)
                    | Some d \<Rightarrow> d) \<rparr>,
       user_signature = None,
       server_signature = None \<rparr>"

text \<open>The manifest as written to the archive: signed when a key is passed (a
  \<open>Uint8Array\<close> is truthy whatever its length); \<open>None\<close> when libsodium throws.\<close>

definition signed_manifest :: "env \<Rightarrow> HavenArchiveBuilder \<Rightarrow> bytes option \<Rightarrow> HavenManifest option" where
  "signed_manifest e b signingKey =
     (let manifest = build_manifest e b in
      case signingKey of
        None \<Rightarrow> Some manifest
      | Some key \<Rightarrow>
          (case signManifest e manifest key of
             None \<Rightarrow> None
           | Some s \<Rightarrow> Some (manifest \<lparr> user_signature := Some s \<rparr>)))"

definition manifest_data :: "HavenManifest \<Rightarrow> bytes" where
  "manifest_data manifest =
     TextEncoder_encode (JSON_stringify (JObj (manifest_object manifest)) None 2)"

definition archive_files :: "HavenArchiveBuilder \<Rightarrow> HavenManifest \<Rightarrow> (string \<times> bytes) list" where
  "archive_files b manifest =
     assign_all id (AList.update ''manifest.json'' (manifest_data manifest) (collect_files b)) []"

definition build :: "env \<Rightarrow> HavenArchiveBuilder \<Rightarrow> bytes option \<Rightarrow> archive_error + bytes" where
  "build e b signingKey =
     (case signed_manifest e b signingKey of
        None \<Rightarrow> Inl Thrown
      | Some manifest \<Rightarrow> Inr (zipSync e (archive_files b manifest)))"

text \<open>A sequence of calls on a builder.\<close>

datatype builder_call =
    AddChannel HavenChannelExport
  | AddAttachment string bytes
  | AddServerMeta json
  | AddAuditLog "json list"

fun call :: "builder_call \<Rightarrow> HavenArchiveBuilder \<Rightarrow> HavenArchiveBuilder" where
  "call (AddChannel channelExport) b = addChannel channelExport b"
| "call (AddAttachment ident data) b = addAttachment ident data b"
| "call (AddServerMeta serverExport) b = addServerMeta serverExport b"
| "call (AddAuditLog entries) b = addAuditLog entries b"

definition calls :: "builder_call list \<Rightarrow> HavenArchiveBuilder \<Rightarrow> HavenArchiveBuilder" where
  "calls cs b = fold call cs b"

fun added_channels :: "builder_call list \<Rightarrow> HavenChannelExport list" where
  "added_channels [] = []"
| "added_channels (AddChannel channelExport # cs) = channelExport # added_channels cs"
| "added_channels (_ # cs) = added_channels cs"

section \<open>The archive reader (\<open>export/reader.ts\<close>)\<close>

text \<open>
  The reader's \<open>files\<close> object and its manifest. A lookup \<open>this.files[path]\<close> is a lookup
  among the entries of the archive; paths that name a property every object inherits are
  outside the model.
\<close>

record HavenArchiveReader =
  reader_files :: "(string \<times> bytes) list"
  reader_manifest :: HavenManifest

definition fromBlob :: "env \<Rightarrow> bytes \<Rightarrow> archive_error + HavenArchiveReader" where
  "fromBlob e data =
     (case unzipSync e data of
        None \<Rightarrow> Inl Thrown
      | Some fs \<Rightarrow>
          (case map_of fs ''manifest.json'' of
             None \<Rightarrow> Inl MissingManifest
           | Some manifestData \<Rightarrow>
               (case JSON_parse_manifest e manifestData of
                  None \<Rightarrow> Inl MalformedManifest
                | Some manifest \<Rightarrow> Inr \<lparr> reader_files = fs, reader_manifest = manifest \<rparr>)))"

definition is_channel_path :: "string \<Rightarrow> bool" where
  "is_channel_path path =
     ((take 9 path = ''channels/'' \<or> take 4 path = ''dms/'')
      \<and> drop (length path - 5) path = ''.json'')"

definition getChannelExports :: "env \<Rightarrow> HavenArchiveReader \<Rightarrow> HavenChannelExport list" where
  "getChannelExports e r =
     concat (map (\<lambda>(path, data).
                    if is_channel_path path
                    then (case JSON_parse_channel e data of None \<Rightarrow> [] | Some x \<Rightarrow> [x])
                    else [])
                 (reader_files r))"

record verify_result =
  valid :: bool
  issues :: "string list"

text \<open>The issues one entry of \<open>manifest.files\<close> adds in the loop of \<open>verify\<close>.\<close>

definition file_issues :: "env \<Rightarrow> (string \<times> bytes) list \<Rightarrow> string \<times> file_entry \<Rightarrow> string list" where
  "file_issues e fs entry =
     (case entry of (path, expected) \<Rightarrow>
        (case map_of fs path of
           None \<Rightarrow> [''Missing file: '' @ path]
         | Some fileData \<Rightarrow>
             (let actualHash = computeFileHash e fileData in
              (if actualHash \<noteq> fe_sha256 expected
               then [''Hash mismatch for '' @ path @ '': expected '' @ fe_sha256 expected
                       @ '', got '' @ actualHash]
               else [])
              @ (if int (length fileData) \<noteq> fe_size expected
                 then [''Size mismatch for '' @ path @ '': expected ''
                         @ Number_toString (fe_size expected) @ '', got ''
                         @ Number_toString (int (length fileData))]
                 else []))))"

text \<open>
  \<open>verify\<close>. The signature is checked when \<open>manifest.user_signature\<close> is truthy. The
  identity key is decoded outside every \<open>try\<close> block: when \<open>fromBase64\<close> throws there,
  \<open>verify\<close> throws.
\<close>

definition verify :: "env \<Rightarrow> HavenArchiveReader \<Rightarrow> archive_error + verify_result" where
  "verify e r =
     (let manifest = reader_manifest r;
          issues1 = concat (map (file_issues e (reader_files r)) (files manifest))
      in case truthy (user_signature manifest) of
           None \<Rightarrow> Inr \<lparr> valid = (issues1 = []), issues = issues1 \<rparr>
         | Some s \<Rightarrow>
             (case fromBase64 e (identity_key (exported_by manifest)) of
                None \<Rightarrow> Inl Thrown
              | Some publicKey \<Rightarrow>
                  (let issues2 = issues1 @ (if verifyManifest e manifest s publicKey then []
                                            else [''User signature verification failed''])
                   in Inr \<lparr> valid = (issues2 = []), issues = issues2 \<rparr>)))"

section \<open>The sender-key ratchet (\<open>crypto/sender-keys.ts\<close>)\<close>

text \<open>
  The sources hold the tests of this module and not the module: every definition of this
  section follows the specification, sections 3, 4.2 and 4.4 to 4.7.
\<close>

type_synonym u32 = "32 word"

text \<open>Modelled from the spec: the error kinds that \<open>crypto/sender-keys.ts\<close> raises (the
  table of section 7).\<close>

datatype sender_key_error =
    SkdmTooShort
  | SkdmDecryptFailed
  | WrongType
  | DistIdMismatch
  | AlreadyConsumed
  | TooManySkipped
  | DecryptFailed

text \<open>Modelled from the spec: \<open>SenderKeyState\<close> of \<open>crypto/sender-keys.ts\<close> (section 3:
  \<open>distribution_id\<close>, \<open>chain_key\<close>, and \<open>chain_index\<close>, an unsigned 32-bit counter);
  \<open>ReceivedSenderKey\<close> has the same shape.\<close>

record SenderKeyState =
  distribution_id :: bytes
  chain_key :: bytes
  chain_index :: u32

type_synonym ReceivedSenderKey = SenderKeyState

text \<open>Modelled from the spec: the primitives \<open>crypto/sender-keys.ts\<close> takes from libsodium
  (sections 1 and 4.4 to 4.6): HMAC-SHA-256 of a key and data, and the secretbox, sealing
  and opening under a key and a nonce. Opening returns \<open>None\<close> when the box does not
  authenticate.\<close>

record primitives =
  hmac_sha256 :: "bytes \<Rightarrow> bytes \<Rightarrow> bytes"
  secretbox :: "bytes \<Rightarrow> bytes \<Rightarrow> bytes \<Rightarrow> bytes"
  secretbox_open :: "bytes \<Rightarrow> bytes \<Rightarrow> bytes \<Rightarrow> bytes option"

text \<open>Modelled from the spec: the little-endian \<open>uint32\<close> that \<open>crypto/sender-keys.ts\<close>
  writes into the payload and the wire message (sections 3 and 6).\<close>

definition u32_le :: "u32 \<Rightarrow> bytes" where
  "u32_le w = [ucast w, ucast (drop_bit 8 w), ucast (drop_bit 16 w), ucast (drop_bit 24 w)]"

text \<open>Modelled from the spec: the little-endian \<open>uint32\<close> that \<open>crypto/sender-keys.ts\<close>
  reads from the payload and the wire message (sections 3 and 6): the first byte is the
  least significant.\<close>

fun le_u32 :: "bytes \<Rightarrow> u32" where
  "le_u32 [] = 0"
| "le_u32 (b # bs) = ucast b OR push_bit 8 (le_u32 bs)"

text \<open>Modelled from the spec: \<open>createSkdmPayload\<close> of \<open>crypto/sender-keys.ts\<close> (section
  4.2: the concatenation \<open>distribution_id || chain_key || chain_index-LE-u32\<close>).\<close>

definition create_skdm_payload :: "SenderKeyState \<Rightarrow> bytes" where
  "create_skdm_payload state =
     distribution_id state @ chain_key state @ u32_le (chain_index state)"

text \<open>Modelled from the spec: \<open>parseSkdmPayload\<close> of \<open>crypto/sender-keys.ts\<close> (section
  4.2: \<open>SkdmTooShort\<close> below 52 bytes, else the three fields at their fixed offsets,
  trailing bytes ignored).\<close>

definition parse_skdm_payload :: "bytes \<Rightarrow> sender_key_error + SenderKeyState" where
  "parse_skdm_payload buf =
     (if length buf < 52 then Inl SkdmTooShort
      else Inr \<lparr> distribution_id = take 16 buf,
                 chain_key = take 32 (drop 16 buf),
                 chain_index = le_u32 (take 4 (drop 48 buf)) \<rparr>)"

text \<open>Modelled from the spec: the advance-one step of the ratchet engine of
  \<open>crypto/sender-keys.ts\<close> (section 4.4): the message key \<open>HMAC(chain_key, 0x01)\<close>, the
  next chain key \<open>HMAC(chain_key, 0x02)\<close>, the index incremented. The result is the
  message key and the state after the step.\<close>

definition advance :: "primitives \<Rightarrow> SenderKeyState \<Rightarrow> bytes \<times> SenderKeyState" where
  "advance p state =
     (hmac_sha256 p (chain_key state) [1],
      state \<lparr> chain_key := hmac_sha256 p (chain_key state) [2],
              chain_index := chain_index state + 1 \<rparr>)"

text \<open>Modelled from the spec: the receiver of \<open>crypto/sender-keys.ts\<close> advancing a number of
  times and discarding the message keys (section 4.6, step 3).\<close>

fun advance_times :: "primitives \<Rightarrow> nat \<Rightarrow> SenderKeyState \<Rightarrow> SenderKeyState" where
  "advance_times p 0 state = state"
| "advance_times p (Suc n) state = advance_times p n (snd (advance p state))"

text \<open>Modelled from the spec: \<open>senderKeyEncrypt\<close> of \<open>crypto/sender-keys.ts\<close> (section
  4.5). The fresh 24-byte nonce is an argument. The result is the wire message and the
  sender's state after the call.\<close>

definition sender_key_encrypt :: "primitives \<Rightarrow> bytes \<Rightarrow> SenderKeyState \<Rightarrow> bytes \<Rightarrow> bytes \<times> SenderKeyState" where
  "sender_key_encrypt p nonce state plaintext =
     (let i = chain_index state;
          (m_k, state') = advance p state;
          ciphertext = secretbox p m_k nonce plaintext
      in ([3] @ distribution_id state @ u32_le i @ nonce @ ciphertext, state'))"

text \<open>Modelled from the spec: \<open>MAX_SKIP\<close> of \<open>crypto/sender-keys.ts\<close> (section 4.6).\<close>

definition MAX_SKIP :: int where
  "MAX_SKIP = 256"

text \<open>Modelled from the spec: the skip that \<open>senderKeyDecrypt\<close> of \<open>crypto/sender-keys.ts\<close>
  computes (section 4.6, step 2): the chain index of the wire message, read from bytes
  17 to 20, minus the receiver's, as an integer.\<close>

definition wire_skip :: "bytes \<Rightarrow> ReceivedSenderKey \<Rightarrow> int" where
  "wire_skip wire received = uint (le_u32 (take 4 (drop 17 wire))) - uint (chain_index received)"

text \<open>Modelled from the spec: \<open>senderKeyDecrypt\<close> of \<open>crypto/sender-keys.ts\<close> (section
  4.6). The result is the plaintext or the error, and the receiver's state after the
  call: unchanged when the header or the skip is refused, advanced \<open>skip + 1\<close> steps
  otherwise, whether or not the secretbox opens.\<close>

definition sender_key_decrypt :: "primitives \<Rightarrow> bytes \<Rightarrow> ReceivedSenderKey \<Rightarrow> (sender_key_error + bytes) \<times> ReceivedSenderKey" where
  "sender_key_decrypt p wire received =
     (if take 1 wire \<noteq> [3] then (Inl WrongType, received)
      else if take 16 (drop 1 wire) \<noteq> distribution_id received then (Inl DistIdMismatch, received)
      else let skip = wire_skip wire received in
        if skip < 0 then (Inl AlreadyConsumed, received)
        else if skip > MAX_SKIP then (Inl TooManySkipped, received)
        else let (m_k, received') = advance p (advance_times p (nat skip) received) in
          (case secretbox_open p m_k (take 24 (drop 21 wire)) (drop 45 wire) of
             None \<Rightarrow> (Inl DecryptFailed, received')
           | Some plaintext \<Rightarrow> (Inr plaintext, received')))"

text \<open>Modelled from the spec: successive calls of \<open>senderKeyEncrypt\<close> of
  \<open>crypto/sender-keys.ts\<close> on one sender state (section 4.5), one call for each pair of a
  nonce and a plaintext: the wire messages and the sender's state at the end.\<close>

fun encrypt_all :: "primitives \<Rightarrow> (bytes \<times> bytes) list \<Rightarrow> SenderKeyState \<Rightarrow> bytes list \<times> SenderKeyState" where
  "encrypt_all p [] state = ([], state)"
| "encrypt_all p ((nonce, plaintext) # rest) state =
     (let (wire, state') = sender_key_encrypt p nonce state plaintext;
          (wires, state'') = encrypt_all p rest state'
      in (wire # wires, state''))"

text \<open>\<open>cloneSenderKey\<close> of \<open>crypto/sender-keys.test.ts\<close>: a copy of the three fields, the
  byte arrays copied. On values the copy is the state itself; that the sender's later
  mutations do not reach the copy is what passing states as values expresses.\<close>

definition cloneSenderKey :: "SenderKeyState \<Rightarrow> ReceivedSenderKey" where
  "cloneSenderKey sk =
     \<lparr> distribution_id = distribution_id sk, chain_key = chain_key sk, chain_index = chain_index sk \<rparr>"

section \<open>Auxiliary definitions for the proofs\<close>

text \<open>The member strings of \<open>SerializeJSONObject\<close>, one key at a time.\<close>

definition member :: "string list option \<Rightarrow> string \<Rightarrow> string \<Rightarrow> (string \<times> json) list \<Rightarrow> string \<Rightarrow> string list" where
  "member pl gap indent ms P =
     (case map_of ms P of
        None \<Rightarrow> []
      | Some v \<Rightarrow> [QuoteJSONString P @ '':'' @ (if gap = [] then [] else '' '')
                     @ SerializeJSONProperty pl gap (indent @ gap) v])"

text \<open>The keys \<open>canonicalManifest\<close> hands to \<open>JSON.stringify\<close>, before they are sorted.\<close>

definition signed_keys :: "HavenManifest \<Rightarrow> string list" where
  "signed_keys m =
     map fst (filter (\<lambda>(k, v). k \<noteq> ''user_signature'' \<and> k \<noteq> ''server_signature'')
                     (manifest_object m))"

text \<open>
  The canonical manifest as the specification words it (section 4.10): the signature
  fields removed, the keys sorted at the top level, every nested object serialized whole
  with its keys in insertion order.
\<close>

definition canonical_manifest_spec :: "HavenManifest \<Rightarrow> string" where
  "canonical_manifest_spec m =
     (let rest = filter (\<lambda>(k, v). k \<noteq> ''user_signature'' \<and> k \<noteq> ''server_signature'')
                        (manifest_object m)
      in JSON_stringify (JObj (sort_key fst rest)) None 0)"

text \<open>A string between double quotes, to write expected JSON texts.\<close>

definition quoted :: "string \<Rightarrow> string" where
  "quoted s = [CHR 0x22] @ s @ [CHR 0x22]"

subsection \<open>Example manifests\<close>

definition example_manifest :: HavenManifest where
  "example_manifest =
     \<lparr> version = 1, format = ''haven-export'',
       exported_by = \<lparr> user_id = ''user-001'', username = ''alice'', identity_key = ''QUJD'' \<rparr>,
       exported_at = ''2026-02-22T12:00:00Z'', scope = None, server_id = Some ''srv-001'',
       channel_id = None, instance_url = ''https://haven.example.com'',
       files = [(''channels/general.json'', \<lparr> fe_sha256 = ''b94d27b9'', fe_size = 11 \<rparr>)],
       message_count = 2,
       date_range = \<lparr> dr_from = ''2025-03-15T14:30:00Z'', dr_to = ''2025-03-15T15:00:00Z'' \<rparr>,
       user_signature = None, server_signature = None \<rparr>"

text \<open>Another exporter, other files with other hashes and sizes, another date range.\<close>

definition forged_manifest :: HavenManifest where
  "forged_manifest =
     example_manifest
       \<lparr> exported_by := \<lparr> user_id = ''user-666'', username = ''mallory'', identity_key = ''WFla'' \<rparr>,
         files := [(''channels/general.json'', \<lparr> fe_sha256 = ''00000000'', fe_size = 0 \<rparr>),
                   (''attachments/x.bin'', \<lparr> fe_sha256 = ''ffffffff'', fe_size = 4 \<rparr>)],
         date_range := \<lparr> dr_from = ''1999-01-01T00:00:00Z'', dr_to = ''1999-01-02T00:00:00Z'' \<rparr> \<rparr>"

text \<open>A manifest whose one file has the path \<open>version\<close>, the name of a top-level key.\<close>

definition version_file_manifest :: HavenManifest where
  "version_file_manifest =
     example_manifest \<lparr> files := [(''version'', \<lparr> fe_sha256 = ''b94d27b9'', fe_size = 11 \<rparr>)] \<rparr>"

subsection \<open>The running totals of the builder\<close>

text \<open>\<open>Number.MAX_SAFE_INTEGER\<close>: up to it, the non-negative integers are JavaScript numbers
  and their sums are exact.\<close>

definition MAX_SAFE_INTEGER :: int where
  "MAX_SAFE_INTEGER = 2 ^ 53 - 1"

text \<open>The \<open>date_range.from\<close> and \<open>date_range.to\<close> values of the channel exports a sequence
  of calls adds, in the order of the calls.\<close>

definition channel_froms :: "builder_call list \<Rightarrow> string list" where
  "channel_froms cs = map (\<lambda>x. dr_from (ch_date_range x)) (added_channels cs)"

definition channel_tos :: "builder_call list \<Rightarrow> string list" where
  "channel_tos cs = map (\<lambda>x. dr_to (ch_date_range x)) (added_channels cs)"

text \<open>What one call of \<open>updateDateRange\<close> does to \<open>earliestDate\<close> and to \<open>latestDate\<close>.\<close>

definition earliest_step :: "string \<Rightarrow> string option \<Rightarrow> string option" where
  "earliest_step f e =
     (case e of None \<Rightarrow> Some f | Some e' \<Rightarrow> if e' = [] \<or> f < e' then Some f else Some e')"

definition latest_step :: "string \<Rightarrow> string option \<Rightarrow> string option" where
  "latest_step t l =
     (case l of None \<Rightarrow> Some t | Some l' \<Rightarrow> if l' = [] \<or> t > l' then Some t else Some l')"

subsection \<open>Example libraries, metadata and channel exports\<close>

text \<open>
  A stand-in for the libraries, to evaluate the program on examples. A signature is the
  key followed by the message, and a key pair is a key with itself: a signature verifies
  under one public key only. The hash keeps the first four bytes, the encoding maps a
  byte to the character of that code, the clock counts seconds. Nothing is unzipped or
  parsed.
\<close>

definition toy_sodium :: env where
  "toy_sodium =
     \<lparr> crypto_sign_detached = (\<lambda>message privateKey. Some (privateKey @ message)),
       crypto_sign_verify_detached = (\<lambda>signature message publicKey. Some (signature = publicKey @ message)),
       crypto_hash_sha256 = (\<lambda>data. take 4 (data @ [0, 0, 0, 0])),
       toBase64 = map (\<lambda>b. char_of (unat b)),
       fromBase64 = (\<lambda>s. Some (map (\<lambda>c. of_nat (of_char c)) s)),
       zipSync = (\<lambda>fs. []),
       unzipSync = (\<lambda>data. None),
       JSON_parse_manifest = (\<lambda>data. None),
       JSON_parse_channel = (\<lambda>data. None),
       now = (\<lambda>n. ''2026-02-22T12:00:0'' @ [hex_digit n] @ ''Z'') \<rparr>"

text \<open>The same, with an archiver and a JSON parser that read back the given files, the
  given manifest and the given channel exports.\<close>

definition reading_back :: "(string \<times> bytes) list \<Rightarrow> HavenManifest \<Rightarrow> HavenChannelExport list \<Rightarrow> env" where
  "reading_back fs m xs =
     toy_sodium
       \<lparr> unzipSync := (\<lambda>data. Some fs),
         JSON_parse_manifest := (\<lambda>data. if data = manifest_data m then Some m else None),
         JSON_parse_channel := (\<lambda>data. find (\<lambda>x. channel_data x = data) xs) \<rparr>"

definition example_metadata :: ArchiveMetadata where
  "example_metadata =
     \<lparr> exportedBy = \<lparr> user_id = ''user-001'', username = ''alice'', identity_key = ''KEY'' \<rparr>,
       md_scope = None, serverId = Some ''srv-001'', channelId = None,
       instanceUrl = ''https://haven.example.com'' \<rparr>"

definition example_channel :: "string \<Rightarrow> int \<Rightarrow> string \<Rightarrow> string \<Rightarrow> HavenChannelExport" where
  "example_channel name n from to =
     \<lparr> ch_channel = \<lparr> ch_id = ''ch-001'', ch_name = name, ch_type = ''text'', ch_encrypted = True,
                       ch_category = Some ''Text Channels'', ch_created_at = ''2025-03-01T00:00:00Z'' \<rparr>,
       ch_exported_at = ''2026-02-22T12:00:00Z'',
       ch_exported_by = ''user-001'',
       ch_message_count = n,
       ch_date_range = \<lparr> dr_from = from, dr_to = to \<rparr>,
       ch_messages = [] \<rparr>"

definition example_calls :: "builder_call list" where
  "example_calls =
     [AddChannel (example_channel ''general'' 2 ''2025-03-15T14:30:00Z'' ''2025-03-15T15:00:00Z''),
      AddAttachment ''att-001'' [102, 97, 107, 101],
      AddChannel (example_channel ''random'' 3 ''2025-01-02T08:00:00Z'' ''2025-02-01T09:00:00Z'')]"

text \<open>A channel export without dates, added before a dated one.\<close>

definition undated_calls :: "builder_call list" where
  "undated_calls =
     [AddChannel (example_channel ''empty'' 0 '''' ''''),
      AddChannel (example_channel ''general'' 2 ''2025-03-15T14:30:00Z'' ''2025-03-15T15:00:00Z'')]"

text \<open>Two channels whose names, \<open>a b\<close> and \<open>a_b\<close>, have the same slug.\<close>

definition collision_first :: HavenChannelExport where
  "collision_first = example_channel ''a b'' 2 ''2025-03-15T14:30:00Z'' ''2025-03-15T15:00:00Z''"

definition collision_second :: HavenChannelExport where
  "collision_second = example_channel ''a_b'' 3 ''2025-04-01T00:00:00Z'' ''2025-04-02T00:00:00Z''"

subsection \<open>What the proofs ask of the libraries\<close>

text \<open>
  \<open>signs_for\<close>: the two keys are a key pair, every message is signed under the private key
  and the signature verifies under the public key. \<open>binds_key\<close>: a signature made with the
  private key verifies under no other public key; this is the idealised reading of
  Ed25519, where finding a second key is infeasible. \<open>base64_inverse\<close>: decoding inverts
  encoding.
\<close>

definition signs_for :: "env \<Rightarrow> bytes \<Rightarrow> bytes \<Rightarrow> bool" where
  "signs_for sodium privateKey publicKey \<longleftrightarrow>
     (\<forall>message. \<exists>signature.
        crypto_sign_detached sodium message privateKey = Some signature
        \<and> crypto_sign_verify_detached sodium signature message publicKey = Some True)"

definition binds_key :: "env \<Rightarrow> bytes \<Rightarrow> bytes \<Rightarrow> bool" where
  "binds_key sodium privateKey publicKey \<longleftrightarrow>
     (\<forall>message signature otherKey.
        crypto_sign_detached sodium message privateKey = Some signature \<and> otherKey \<noteq> publicKey
        \<longrightarrow> crypto_sign_verify_detached sodium signature message otherKey \<noteq> Some True)"

definition base64_inverse :: "env \<Rightarrow> bool" where
  "base64_inverse e \<longleftrightarrow> (\<forall>data. fromBase64 e (toBase64 e data) = Some data)"

subsection \<open>Example archives\<close>

text \<open>The signing key whose public key, in the stand-in library, is the identity key
  \<open>KEY\<close> of the example metadata; and the metadata of the tests before an identity key
  is filled in.\<close>

definition example_key :: bytes where
  "example_key = [75, 69, 89]"

definition unkeyed_metadata :: ArchiveMetadata where
  "unkeyed_metadata =
     example_metadata \<lparr> exportedBy := \<lparr> user_id = ''user-001'', username = ''alice'', identity_key = '''' \<rparr> \<rparr>"

text \<open>The manifest \<open>build\<close> writes for the example calls, and the library that reads the
  archive back.\<close>

definition written_manifest :: "ArchiveMetadata \<Rightarrow> bytes option \<Rightarrow> HavenManifest" where
  "written_manifest md signingKey =
     (case signed_manifest toy_sodium (calls example_calls (new_HavenArchiveBuilder md)) signingKey of
        None \<Rightarrow> build_manifest toy_sodium (calls example_calls (new_HavenArchiveBuilder md))
      | Some m \<Rightarrow> m)"

definition example_library :: "ArchiveMetadata \<Rightarrow> bytes option \<Rightarrow> env" where
  "example_library md signingKey =
     reading_back
       (archive_files (calls example_calls (new_HavenArchiveBuilder md)) (written_manifest md signingKey))
       (written_manifest md signingKey) []"

text \<open>A decoder that throws on a character outside the base64 alphabet, and a reader whose
  manifest has a signature and an identity key that is not base64.\<close>

definition base64_char :: "char \<Rightarrow> bool" where
  "base64_char c =
     (let n = (of_char c :: nat) in
      (65 \<le> n \<and> n \<le> 90) \<or> (97 \<le> n \<and> n \<le> 122) \<or> (48 \<le> n \<and> n \<le> 57)
      \<or> c = CHR ''+'' \<or> c = CHR ''/'' \<or> c = CHR ''='')"

definition strict_sodium :: env where
  "strict_sodium =
     toy_sodium \<lparr> fromBase64 := (\<lambda>s. if list_all base64_char s then fromBase64 toy_sodium s else None) \<rparr>"

definition undecodable_reader :: HavenArchiveReader where
  "undecodable_reader =
     \<lparr> reader_files = [],
       reader_manifest =
         example_manifest
           \<lparr> exported_by := \<lparr> user_id = ''user-001'', username = ''alice'', identity_key = ''%%%'' \<rparr>,
             files := [],
             user_signature := Some ''AAAA'' \<rparr> \<rparr>"

text \<open>A reader whose manifest lists a file with another hash and a file that is not in
  the archive.\<close>

definition tampered_reader :: HavenArchiveReader where
  "tampered_reader =
     \<lparr> reader_files = [(''channels/general.json'', [1, 2, 3])],
       reader_manifest =
         example_manifest
           \<lparr> files := [(''channels/general.json'', \<lparr> fe_sha256 = ''00000000'', fe_size = 3 \<rparr>),
                       (''channels/nonexistent.json'', \<lparr> fe_sha256 = ''abc'', fe_size = 100 \<rparr>)] \<rparr> \<rparr>"

subsection \<open>The sender-key ratchet: what the proofs ask of the secretbox, and examples\<close>

text \<open>\<open>secretbox_opens\<close>: a box opens under the key and nonce it was made with.\<close>

definition secretbox_opens :: "primitives \<Rightarrow> bool" where
  "secretbox_opens p \<longleftrightarrow>
     (\<forall>key nonce plaintext.
        secretbox_open p key nonce (secretbox p key nonce plaintext) = Some plaintext)"

text \<open>A stand-in for the primitives: the box is the key and the nonce followed by the
  plaintext, and opens when they are the key and nonce given.\<close>

definition toy_primitives :: primitives where
  "toy_primitives =
     \<lparr> hmac_sha256 = (\<lambda>key data. take 32 (data @ key)),
       secretbox = (\<lambda>key nonce plaintext. key @ nonce @ plaintext),
       secretbox_open = (\<lambda>key nonce ciphertext.
          if take (length key + length nonce) ciphertext = key @ nonce
          then Some (drop (length key + length nonce) ciphertext) else None) \<rparr>"

definition example_state :: SenderKeyState where
  "example_state =
     \<lparr> distribution_id = replicate 16 7, chain_key = replicate 32 1, chain_index = 42 \<rparr>"

definition example_nonce :: bytes where
  "example_nonce = replicate 24 9"

text \<open>The bytes of \<open>hello group\<close>.\<close>

definition hello_group :: bytes where
  "hello_group = [104, 101, 108, 108, 111, 32, 103, 114, 111, 117, 112]"

text \<open>The wire message of the example sender at chain index \<open>i\<close>.\<close>

definition example_wire :: "u32 \<Rightarrow> bytes" where
  "example_wire i =
     fst (sender_key_encrypt toy_primitives example_nonce (example_state \<lparr> chain_index := i \<rparr>)
            hello_group)"

section \<open>Properties of the canonical manifest\<close>

lemma SerializeJSONProperty_JObj:
  "SerializeJSONProperty pl gap indent (JObj ms) =
     wrap ''{'' ''}'' gap indent
       (concat (map (member pl gap indent ms) (case pl of Some K \<Rightarrow> K | None \<Rightarrow> map fst ms)))"
  unfolding member_def by (rule SerializeJSONProperty.simps)

lemma concat_map_Nil: "(\<And>x. x \<in> set xs \<Longrightarrow> g x = []) \<Longrightarrow> concat (map g xs) = []"
  by (induction xs) auto

lemma SerializeJSONProperty_unlisted:
  assumes "\<And>k. k \<in> fst ` set ms \<Longrightarrow> k \<notin> set K"
  shows "SerializeJSONProperty (Some K) [] indent (JObj ms) = ''{}''"
proof -
  have "member (Some K) [] indent ms P = []" if "P \<in> set K" for P
  proof -
    have "map_of ms P = None"
      using assms that by (force simp: map_of_eq_None_iff)
    then show ?thesis by (simp add: member_def)
  qed
  then have "concat (map (member (Some K) [] indent ms) K) = []"
    by (rule concat_map_Nil)
  then show ?thesis
    unfolding SerializeJSONProperty_JObj by (simp add: wrap_def)
qed

lemma SerializeJSONProperty_obj_cong:
  assumes "\<And>P. P \<in> set K \<Longrightarrow> member (Some K) gap indent ms1 P = member (Some K) gap indent ms2 P"
  shows "SerializeJSONProperty (Some K) gap indent (JObj ms1)
       = SerializeJSONProperty (Some K) gap indent (JObj ms2)"
proof -
  have "map (member (Some K) gap indent ms1) K = map (member (Some K) gap indent ms2) K"
    using assms by (intro map_cong) simp_all
  then show ?thesis
    by (simp only: SerializeJSONProperty_JObj option.case)
qed

lemma set_PropertyList [simp]: "set (PropertyList ks) = set ks"
  by (simp add: PropertyList_def)

lemma signed_keys_subset:
  "set (signed_keys m) \<subseteq> {''version'', ''format'', ''exported_by'', ''exported_at'',
     ''instance_url'', ''files'', ''message_count'', ''date_range'', ''server_id'',
     ''channel_id'', ''scope''}"
  by (auto simp: signed_keys_def manifest_object_def optional_def split: option.splits)

lemma exported_by_unlisted:
  assumes "set K \<subseteq> set (signed_keys m)"
  shows "SerializeJSONProperty (Some K) [] indent (exported_by_object e) = ''{}''"
  unfolding exported_by_object_def
  using assms signed_keys_subset [of m]
  by (intro SerializeJSONProperty_unlisted) auto

lemma date_range_unlisted:
  assumes "set K \<subseteq> set (signed_keys m)"
  shows "SerializeJSONProperty (Some K) [] indent (date_range_object e) = ''{}''"
  unfolding date_range_object_def
  using assms signed_keys_subset [of m]
  by (intro SerializeJSONProperty_unlisted) auto

lemma file_entry_unlisted:
  assumes "set K \<subseteq> set (signed_keys m)"
  shows "SerializeJSONProperty (Some K) [] indent (file_entry_object e) = ''{}''"
  unfolding file_entry_object_def
  using assms signed_keys_subset [of m]
  by (intro SerializeJSONProperty_unlisted) auto

lemma map_of_files:
  "map_of (map (\<lambda>(path, e). (path, file_entry_object e)) fs) P = map_option file_entry_object (map_of fs P)"
  by (induction fs) auto

lemma files_member:
  assumes "set K \<subseteq> set (signed_keys m)"
  shows "member (Some K) [] indent (map (\<lambda>(path, e). (path, file_entry_object e)) fs) P
     = (if P \<in> fst ` set fs then [QuoteJSONString P @ '':{}''] else [])"
proof (cases "map_of fs P")
  case None
  then have "P \<notin> fst ` set fs"
    by (simp add: map_of_eq_None_iff)
  then show ?thesis
    by (simp add: member_def map_of_files None)
next
  case (Some e)
  then have "P \<in> fst ` set fs"
    by (auto dest: map_of_SomeD intro: rev_image_eqI)
  with Some show ?thesis
    by (simp add: member_def map_of_files file_entry_unlisted [OF assms])
qed

lemma files_same_paths:
  assumes "set K \<subseteq> set (signed_keys m)"
    and "\<And>P. P \<in> set K \<Longrightarrow> P \<in> fst ` set fs1 \<longleftrightarrow> P \<in> fst ` set fs2"
  shows "SerializeJSONProperty (Some K) [] indent (files_object fs1)
       = SerializeJSONProperty (Some K) [] indent (files_object fs2)"
  unfolding files_object_def
  by (rule SerializeJSONProperty_obj_cong) (simp add: files_member [OF assms(1)] assms(2))


lemma signed_keys_agree:
  assumes "scope m1 = scope m2" "server_id m1 = server_id m2" "channel_id m1 = channel_id m2"
  shows "signed_keys m1 = signed_keys m2"
  using assms by (simp add: signed_keys_def manifest_object_def optional_def split: option.splits)

lemma canonicalManifest_eq:
  "canonicalManifest m =
     SerializeJSONProperty (Some (PropertyList (sort (signed_keys m)))) [] []
       (JObj (filter (\<lambda>(k, v). k \<noteq> ''user_signature'' \<and> k \<noteq> ''server_signature'')
                     (manifest_object m)))"
  by (simp add: canonicalManifest_def canonicalObject_def JSON_stringify_def signed_keys_def Let_def)

lemma rest_member:
  assumes K: "set K \<subseteq> set (signed_keys m1)"
    and "version m1 = version m2" "format m1 = format m2" "exported_at m1 = exported_at m2"
      "instance_url m1 = instance_url m2" "message_count m1 = message_count m2"
      "scope m1 = scope m2" "server_id m1 = server_id m2" "channel_id m1 = channel_id m2"
    and files: "\<And>P. P \<in> set K \<Longrightarrow> P \<in> fst ` set (files m1) \<longleftrightarrow> P \<in> fst ` set (files m2)"
  shows "member (Some K) [] [] (filter (\<lambda>(k, v). k \<noteq> ''user_signature'' \<and> k \<noteq> ''server_signature'')
                     (manifest_object m1)) P
     = member (Some K) [] [] (filter (\<lambda>(k, v). k \<noteq> ''user_signature'' \<and> k \<noteq> ''server_signature'')
                     (manifest_object m2)) P"
  using assms(2-9) files_same_paths [OF K files, of "[]"]
  by (simp add: member_def manifest_object_def optional_def exported_by_unlisted [OF K]
      date_range_unlisted [OF K] split: option.splits)







lemma canonicalObject_order:
  assumes "distinct (map fst o1)" "distinct (map fst o2)" "set o1 = set o2"
  shows "canonicalObject o1 = canonicalObject o2"
proof -
  let ?p = "\<lambda>(k :: string, v :: json). k \<noteq> ''user_signature'' \<and> k \<noteq> ''server_signature''"
  have d1: "distinct (map fst (filter ?p o1))" and d2: "distinct (map fst (filter ?p o2))"
    using assms(1,2) by (simp_all add: distinct_map_filter)
  have s: "set (filter ?p o1) = set (filter ?p o2)"
    using assms(3) by simp
  have "sort (map fst (filter ?p o1)) = sort (map fst (filter ?p o2))"
  proof (rule sorted_distinct_set_unique)
    show "set (sort (map fst (filter ?p o1))) = set (sort (map fst (filter ?p o2)))"
      using s by (simp del: set_filter)
  qed (use d1 d2 in simp_all)
  moreover have "map_of (filter ?p o1) = map_of (filter ?p o2)"
    using d1 d2 s by (simp add: map_of_inject_set)
  ultimately show ?thesis
    unfolding canonicalObject_def JSON_stringify_def Let_def
    by (simp only: replicate_0 min_0R option.map)
      (rule SerializeJSONProperty_obj_cong, simp add: member_def)
qed

text \<open>
  C1. The specification reads \<open>canonical_manifest\<close> as the JSON text of the manifest
  without its signature fields, the top-level keys sorted and every nested object
  (\<open>exported_by\<close>, \<open>files\<close> and its entries, \<open>date_range\<close>) serialized whole. The code hands
  the sorted top-level keys to \<open>JSON.stringify\<close> as its replacer array, which is a list of
  the keys to keep at every depth: on the example manifest the nested objects come out
  as \<open>{}\<close>, and the text of the code is not the text the specification describes.
\<close>

theorem canonicalManifest_example:
  "canonicalManifest example_manifest =
     ''{'' @ quoted ''date_range'' @ '':{},''
       @ quoted ''exported_at'' @ '':'' @ quoted ''2026-02-22T12:00:00Z'' @ '',''
       @ quoted ''exported_by'' @ '':{},''
       @ quoted ''files'' @ '':{},''
       @ quoted ''format'' @ '':'' @ quoted ''haven-export'' @ '',''
       @ quoted ''instance_url'' @ '':'' @ quoted ''https://haven.example.com'' @ '',''
       @ quoted ''message_count'' @ '':2,''
       @ quoted ''server_id'' @ '':'' @ quoted ''srv-001'' @ '',''
       @ quoted ''version'' @ '':1}''
   \<and> canonical_manifest_spec example_manifest =
     ''{'' @ quoted ''date_range'' @ '':{'' @ quoted ''from'' @ '':'' @ quoted ''2025-03-15T14:30:00Z''
          @ '','' @ quoted ''to'' @ '':'' @ quoted ''2025-03-15T15:00:00Z'' @ ''},''
       @ quoted ''exported_at'' @ '':'' @ quoted ''2026-02-22T12:00:00Z'' @ '',''
       @ quoted ''exported_by'' @ '':{'' @ quoted ''user_id'' @ '':'' @ quoted ''user-001''
          @ '','' @ quoted ''username'' @ '':'' @ quoted ''alice''
          @ '','' @ quoted ''identity_key'' @ '':'' @ quoted ''QUJD'' @ ''},''
       @ quoted ''files'' @ '':{'' @ quoted ''channels/general.json'' @ '':{''
          @ quoted ''sha256'' @ '':'' @ quoted ''b94d27b9'' @ '','' @ quoted ''size'' @ '':11}},''
       @ quoted ''format'' @ '':'' @ quoted ''haven-export'' @ '',''
       @ quoted ''instance_url'' @ '':'' @ quoted ''https://haven.example.com'' @ '',''
       @ quoted ''message_count'' @ '':2,''
       @ quoted ''server_id'' @ '':'' @ quoted ''srv-001'' @ '',''
       @ quoted ''version'' @ '':1}''
   \<and> canonicalManifest example_manifest \<noteq> canonical_manifest_spec example_manifest"
  by code_simp

text \<open>
  C2, as amended. Two manifests that agree on the top-level primitive fields (\<open>version\<close>,
  \<open>format\<close>, \<open>exported_at\<close>, \<open>instance_url\<close>, \<open>message_count\<close> and the optional \<open>scope\<close>,
  \<open>server_id\<close>, \<open>channel_id\<close>), and whose \<open>files\<close> maps hold the same paths among the names of
  the signed top-level keys (none, in every manifest the builder writes), have the same
  canonical text, whatever their file paths otherwise, their hashes and sizes, their
  \<open>exported_by\<close> and their \<open>date_range\<close>; so \<open>signManifest\<close> gives both the same signature.
\<close>

theorem canonicalManifest_ignores_nested:
  assumes "version m1 = version m2" "format m1 = format m2" "exported_at m1 = exported_at m2"
      "instance_url m1 = instance_url m2" "message_count m1 = message_count m2"
      "scope m1 = scope m2" "server_id m1 = server_id m2" "channel_id m1 = channel_id m2"
    and "\<forall>P \<in> set (signed_keys m1). P \<in> fst ` set (files m1) \<longleftrightarrow> P \<in> fst ` set (files m2)"
  shows "canonicalManifest m1 = canonicalManifest m2
     \<and> (\<forall>sodium privateKey. signManifest sodium m1 privateKey = signManifest sodium m2 privateKey)"
proof -
  let ?K = "PropertyList (sort (signed_keys m1))"
  have K: "set ?K \<subseteq> set (signed_keys m1)"
    by simp
  have keys: "signed_keys m2 = signed_keys m1"
    using signed_keys_agree [OF assms(6-8)] by simp
  have "canonicalManifest m1 = canonicalManifest m2"
    unfolding canonicalManifest_eq keys
    by (rule SerializeJSONProperty_obj_cong, rule rest_member [OF K assms(1-8)])
      (use assms(9) in simp)
  then show ?thesis
    by (simp add: signManifest_def)
qed

theorem canonicalManifest_ignores_nested_witness:
  "exported_by example_manifest \<noteq> exported_by forged_manifest
   \<and> files example_manifest \<noteq> files forged_manifest
   \<and> date_range example_manifest \<noteq> date_range forged_manifest
   \<and> canonicalManifest example_manifest = canonicalManifest forged_manifest
   \<and> (\<forall>sodium privateKey. signManifest sodium example_manifest privateKey
         = signManifest sodium forged_manifest privateKey)"
  using canonicalManifest_ignores_nested [of example_manifest forged_manifest]
  by (simp add: example_manifest_def forged_manifest_def signed_keys_def manifest_object_def
      optional_def)

text \<open>
  C2 as it is stated fails: a file whose path is the name of a top-level key shows in the
  canonical text. The two manifests agree on every primitive field and have the same
  top-level keys; they differ in \<open>files\<close> alone.
\<close>

theorem canonicalManifest_file_named_version:
  "version example_manifest = version version_file_manifest
   \<and> format example_manifest = format version_file_manifest
   \<and> exported_at example_manifest = exported_at version_file_manifest
   \<and> instance_url example_manifest = instance_url version_file_manifest
   \<and> message_count example_manifest = message_count version_file_manifest
   \<and> scope example_manifest = scope version_file_manifest
   \<and> server_id example_manifest = server_id version_file_manifest
   \<and> channel_id example_manifest = channel_id version_file_manifest
   \<and> map fst (manifest_object example_manifest) = map fst (manifest_object version_file_manifest)
   \<and> canonicalManifest example_manifest \<noteq> canonicalManifest version_file_manifest"
  by code_simp

section \<open>Properties of the builder\<close>

lemma calls_Nil: "calls [] b = b"
  by (simp add: calls_def)

lemma calls_Cons: "calls (c # cs) b = calls cs (call c b)"
  by (simp add: calls_def)

lemma call_fields:
  "messageCount (call c b) = messageCount b + sum_list (map ch_message_count (added_channels [c]))"
  "earliestDate (call c b) = fold earliest_step (channel_froms [c]) (earliestDate b)"
  "latestDate (call c b) = fold latest_step (channel_tos [c]) (latestDate b)"
  by (cases c; simp add: addChannel_def updateDateRange_def addAttachment_def
      addServerMeta_def addAuditLog_def channel_froms_def channel_tos_def
      earliest_step_def latest_step_def)+

lemma added_channels_Cons:
  "added_channels (c # cs) = added_channels [c] @ added_channels cs"
  by (cases c) simp_all

lemma calls_fields:
  "messageCount (calls cs b) = messageCount b + sum_list (map ch_message_count (added_channels cs))"
  "earliestDate (calls cs b) = fold earliest_step (channel_froms cs) (earliestDate b)"
  "latestDate (calls cs b) = fold latest_step (channel_tos cs) (latestDate b)"
proof (induction cs arbitrary: b)
  case Nil
  {
    case 1 show ?case by (simp add: calls_Nil)
  next
    case 2 show ?case by (simp add: calls_Nil channel_froms_def)
  next
    case 3 show ?case by (simp add: calls_Nil channel_tos_def)
  }
next
  case (Cons c cs)
  {
    case 1 show ?case
      by (simp add: calls_Cons Cons.IH call_fields added_channels_Cons [of c cs])
  next
    case 2 show ?case
      by (simp add: calls_Cons Cons.IH call_fields channel_froms_def added_channels_Cons [of c cs])
  next
    case 3 show ?case
      by (simp add: calls_Cons Cons.IH call_fields channel_tos_def added_channels_Cons [of c cs])
  }
qed

lemma Nil_le_string [simp]: "([] :: string) \<le> s"
  by (cases s) simp_all

lemma latest_step_Some: "latest_step t (Some l) = Some (max l t)"
  by (auto simp: latest_step_def max_def)

lemma earliest_step_Some: "e \<noteq> [] \<Longrightarrow> earliest_step f (Some e) = Some (min e f)"
  by (auto simp: earliest_step_def min_def)

lemma fold_latest_step: "fold latest_step ts (Some l) = Some (fold max ts l)"
  by (induction ts arbitrary: l) (simp_all add: latest_step_Some max.commute)

lemma fold_earliest_step:
  "e \<noteq> [] \<Longrightarrow> [] \<notin> set fs \<Longrightarrow> fold earliest_step fs (Some e) = Some (fold min fs e)"
proof (induction fs arbitrary: e)
  case Nil
  show ?case by simp
next
  case (Cons f fs)
  then have "min e f \<noteq> []"
    by (auto simp: min_def)
  with Cons show ?case
    by (simp add: earliest_step_Some min.commute)
qed

lemma fold_latest_step_None:
  "fold latest_step (t # ts) None = Some (Max (set (t # ts)))"
proof -
  have "fold latest_step (t # ts) None = Some (fold max ts t)"
    by (simp add: latest_step_def fold_latest_step)
  then show ?thesis
    by (simp only: Max.set_eq_fold)
qed

lemma fold_earliest_step_None:
  assumes "[] \<notin> set (f # fs)"
  shows "fold earliest_step (f # fs) None = Some (Min (set (f # fs)))"
proof -
  have "f \<noteq> []" "[] \<notin> set fs"
    using assms by auto
  then have "fold earliest_step (f # fs) None = Some (fold min fs f)"
    by (simp add: earliest_step_def fold_earliest_step)
  then show ?thesis
    by (simp only: Min.set_eq_fold)
qed

text \<open>
  C9, as amended. For every sequence of calls on a new builder whose added channel
  exports have non-negative \<open>message_count\<close> fields with a total of at most
  \<open>Number.MAX_SAFE_INTEGER\<close>, the manifest's \<open>message_count\<close> is the sum of these fields.
  For every sequence of calls on a new builder: when at least one channel was added,
  \<open>date_range.to\<close> is the greatest of their \<open>date_range.to\<close> values in the order of
  strings, and \<open>date_range.from\<close> is the least of their \<open>date_range.from\<close> values provided
  none of these is the empty string; when no channel was added, \<open>date_range.from\<close> and
  \<open>date_range.to\<close> are the second and third clock readings of \<open>build\<close>.
\<close>

theorem build_manifest_totals:
  "((\<forall>x \<in> set (added_channels cs). 0 \<le> ch_message_count x)
      \<and> sum_list (map ch_message_count (added_channels cs)) \<le> MAX_SAFE_INTEGER \<longrightarrow>
        message_count (build_manifest e (calls cs (new_HavenArchiveBuilder md)))
          = sum_list (map ch_message_count (added_channels cs)))
   \<and> (added_channels cs \<noteq> [] \<longrightarrow>
        dr_to (date_range (build_manifest e (calls cs (new_HavenArchiveBuilder md))))
          = Max (set (channel_tos cs)))
   \<and> (added_channels cs \<noteq> [] \<and> [] \<notin> set (channel_froms cs) \<longrightarrow>
        dr_from (date_range (build_manifest e (calls cs (new_HavenArchiveBuilder md))))
          = Min (set (channel_froms cs)))
   \<and> (added_channels cs = [] \<longrightarrow>
        date_range (build_manifest e (calls cs (new_HavenArchiveBuilder md)))
          = \<lparr> dr_from = now e 1, dr_to = now e 2 \<rparr>)"
proof -
  let ?b = "new_HavenArchiveBuilder md"
  let ?m = "build_manifest e (calls cs ?b)"
  have init: "messageCount ?b = 0" "earliestDate ?b = None" "latestDate ?b = None"
    by (simp_all add: new_HavenArchiveBuilder_def)
  have count: "message_count ?m = sum_list (map ch_message_count (added_channels cs))"
    by (simp add: build_manifest_def calls_fields init)
  have to: "dr_to (date_range ?m) = Max (set (channel_tos cs))"
    if ne: "added_channels cs \<noteq> []"
  proof -
    obtain t ts where ts: "channel_tos cs = t # ts"
      using ne by (cases "channel_tos cs") (simp_all add: channel_tos_def)
    have "latestDate (calls cs ?b) = Some (Max (set (channel_tos cs)))"
      unfolding calls_fields init ts by (rule fold_latest_step_None)
    then show ?thesis
      by (simp add: build_manifest_def)
  qed
  have "from": "dr_from (date_range ?m) = Min (set (channel_froms cs))"
    if ne: "added_channels cs \<noteq> []" and full: "[] \<notin> set (channel_froms cs)"
  proof -
    obtain f fs where fs: "channel_froms cs = f # fs"
      using ne by (cases "channel_froms cs") (simp_all add: channel_froms_def)
    have "earliestDate (calls cs ?b) = Some (Min (set (channel_froms cs)))"
      unfolding calls_fields init fs using full [unfolded fs]
      by (rule fold_earliest_step_None)
    then show ?thesis
      by (simp add: build_manifest_def)
  qed
  have none: "date_range ?m = \<lparr> dr_from = now e 1, dr_to = now e 2 \<rparr>"
    if "added_channels cs = []"
    using that
    by (simp add: build_manifest_def calls_fields init channel_froms_def channel_tos_def)
  from count to "from" none show ?thesis
    by (intro conjI impI) simp_all
qed

theorem build_manifest_totals_witness:
  "message_count (build_manifest toy_sodium (calls example_calls (new_HavenArchiveBuilder example_metadata))) = 5
   \<and> dr_from (date_range (build_manifest toy_sodium (calls example_calls (new_HavenArchiveBuilder example_metadata))))
       = ''2025-01-02T08:00:00Z''
   \<and> dr_to (date_range (build_manifest toy_sodium (calls example_calls (new_HavenArchiveBuilder example_metadata))))
       = ''2025-03-15T15:00:00Z''
   \<and> date_range (build_manifest toy_sodium (calls [AddAttachment ''att-001'' []] (new_HavenArchiveBuilder example_metadata)))
       = \<lparr> dr_from = ''2026-02-22T12:00:01Z'', dr_to = ''2026-02-22T12:00:02Z'' \<rparr>"
  using build_manifest_totals [where e = toy_sodium and cs = example_calls and md = example_metadata]
    build_manifest_totals [where e = toy_sodium and cs = "[AddAttachment ''att-001'' []]"
      and md = example_metadata]
  by (simp add: example_calls_def example_channel_def channel_froms_def channel_tos_def
      toy_sodium_def hex_digit_def MAX_SAFE_INTEGER_def)

text \<open>
  C9 as it is stated fails. A channel export whose \<open>date_range.from\<close> is the empty string
  counts as no date at the next call (\<open>!this.earliestDate\<close>), so the manifest's
  \<open>date_range.from\<close> is the later value and not the least; and with no channel added
  there is no least value: the field is a clock reading.
\<close>

theorem date_range_from_not_minimum:
  "channel_froms undated_calls = ['''', ''2025-03-15T14:30:00Z'']
   \<and> Min (set (channel_froms undated_calls)) = ''''
   \<and> dr_from (date_range (build_manifest toy_sodium (calls undated_calls (new_HavenArchiveBuilder example_metadata))))
       = ''2025-03-15T14:30:00Z''
   \<and> added_channels [] = []
   \<and> dr_from (date_range (build_manifest toy_sodium (calls [] (new_HavenArchiveBuilder example_metadata))))
       = now toy_sodium 1"
  by code_simp

lemma channel_key_cases:
  "channel_key x = ''channels/'' @ slug (ch_name (ch_channel x)) @ ''.json''
   \<or> channel_key x = ''dms/'' @ slug (ch_name (ch_channel x)) @ ''.json''"
  by (simp add: channel_key_def channel_dir_def)

lemma ends_with_json: "drop (length (p @ ''.json'') - 5) (p @ ''.json'') = ''.json''"
  by simp

lemma is_channel_path_channel_key: "is_channel_path (channel_key x)"
proof -
  have "drop (length (channel_key x) - 5) (channel_key x) = ''.json''"
    using ends_with_json [of "channel_dir x @ ''/'' @ slug (ch_name (ch_channel x))"]
    by (simp add: channel_key_def)
  moreover have "take 9 (channel_key x) = ''channels/'' \<or> take 4 (channel_key x) = ''dms/''"
    using channel_key_cases [of x] by auto
  ultimately show ?thesis
    by (simp add: is_channel_path_def)
qed

lemma manifest_not_channel_path: "\<not> is_channel_path ''manifest.json''"
  by (simp add: is_channel_path_def)

lemma channel_key_not_manifest: "channel_key x \<noteq> ''manifest.json''"
  using channel_key_cases [of x] by auto

lemma channel_key_eq:
  "channel_key x1 = channel_key x2 \<longleftrightarrow>
     slug (ch_name (ch_channel x1)) = slug (ch_name (ch_channel x2)) \<and> channel_dir x1 = channel_dir x2"
  by (auto simp: channel_key_def channel_dir_def)

lemma channels_addChannel:
  "channels (addChannel x b) = AList.update (channel_key x) (channel_data x) (channels b)"
  by (simp add: addChannel_def updateDateRange_def)

text \<open>
  C10. When two channel exports have the same slug and the same directory, the second
  \<open>addChannel\<close> replaces the blob of the first under their common path and adds no entry,
  while \<open>messageCount\<close> grows by both counts. On a new builder with these two calls, the
  manifest counts both channels and its date range spans both, the archive holds the one
  channel file of the second export, and the manifest's \<open>message_count\<close> exceeds the sum
  of the message counts of the channel files in the archive as soon as the first export
  has a message.
\<close>

theorem slug_collision_overwrites:
  assumes "slug (ch_name (ch_channel x1)) = slug (ch_name (ch_channel x2))"
    and "channel_dir x1 = channel_dir x2"
  shows "map_of (channels (addChannel x2 (addChannel x1 b))) (channel_key x1) = Some (channel_data x2)
    \<and> map fst (channels (addChannel x2 (addChannel x1 b))) = map fst (channels (addChannel x1 b))
    \<and> messageCount (addChannel x2 (addChannel x1 b))
        = messageCount b + ch_message_count x1 + ch_message_count x2
    \<and> dr_to (date_range (build_manifest e (calls [AddChannel x1, AddChannel x2] (new_HavenArchiveBuilder md))))
        = max (dr_to (ch_date_range x1)) (dr_to (ch_date_range x2))
    \<and> (dr_from (ch_date_range x1) \<noteq> [] \<longrightarrow>
          dr_from (date_range (build_manifest e (calls [AddChannel x1, AddChannel x2] (new_HavenArchiveBuilder md))))
            = min (dr_from (ch_date_range x1)) (dr_from (ch_date_range x2)))
    \<and> message_count (build_manifest e (calls [AddChannel x1, AddChannel x2] (new_HavenArchiveBuilder md)))
        = ch_message_count x1 + ch_message_count x2
    \<and> archive_files (calls [AddChannel x1, AddChannel x2] (new_HavenArchiveBuilder md)) m
        = [(channel_key x2, channel_data x2), (''manifest.json'', manifest_data m)]
    \<and> (JSON_parse_channel e (channel_data x2) = Some x2 \<longrightarrow>
          getChannelExports e
            \<lparr> reader_files = archive_files (calls [AddChannel x1, AddChannel x2]
                                               (new_HavenArchiveBuilder md)) m,
              reader_manifest = m \<rparr> = [x2]
          \<and> (0 < ch_message_count x1 \<longrightarrow>
                sum_list (map ch_message_count
                  (getChannelExports e
                    \<lparr> reader_files = archive_files (calls [AddChannel x1, AddChannel x2]
                                                       (new_HavenArchiveBuilder md)) m,
                      reader_manifest = m \<rparr>))
                < message_count (build_manifest e (calls [AddChannel x1, AddChannel x2]
                                                      (new_HavenArchiveBuilder md)))))"
proof -
  have key: "channel_key x1 = channel_key x2"
    using assms by (simp add: channel_key_eq)
  let ?b1 = "addChannel x1 b" and ?b2 = "addChannel x2 (addChannel x1 b)"
  let ?B = "addChannel x2 (addChannel x1 (new_HavenArchiveBuilder md))"
  have B: "calls [AddChannel x1, AddChannel x2] (new_HavenArchiveBuilder md) = ?B"
    by (simp add: calls_Cons calls_Nil)
  have 1: "map_of (channels ?b2) (channel_key x1) = Some (channel_data x2)"
    by (simp add: channels_addChannel key update_conv')
  have "channel_key x2 \<in> fst ` set (channels ?b1)"
    by (simp add: channels_addChannel key dom_update)
  then have 2: "map fst (channels ?b2) = map fst (channels ?b1)"
    by (simp add: channels_addChannel [of x2] update_keys)
  have 3: "messageCount ?b2 = messageCount b + ch_message_count x1 + ch_message_count x2"
    by (simp add: addChannel_def updateDateRange_def)
  have "latestDate ?B = Some (max (dr_to (ch_date_range x1)) (dr_to (ch_date_range x2)))"
    by (auto simp: addChannel_def updateDateRange_def new_HavenArchiveBuilder_def max_def)
  then have 4: "dr_to (date_range (build_manifest e ?B))
      = max (dr_to (ch_date_range x1)) (dr_to (ch_date_range x2))"
    by (simp add: build_manifest_def)
  have "earliestDate ?B = Some (min (dr_from (ch_date_range x1)) (dr_from (ch_date_range x2)))"
    if "dr_from (ch_date_range x1) \<noteq> []"
    using that
    by (auto simp: addChannel_def updateDateRange_def new_HavenArchiveBuilder_def min_def)
  then have 8: "dr_from (date_range (build_manifest e ?B))
      = min (dr_from (ch_date_range x1)) (dr_from (ch_date_range x2))"
    if "dr_from (ch_date_range x1) \<noteq> []"
    using that by (simp add: build_manifest_def)
  have 5: "message_count (build_manifest e ?B) = ch_message_count x1 + ch_message_count x2"
    by (simp add: build_manifest_def addChannel_def updateDateRange_def new_HavenArchiveBuilder_def)
  have ch: "channels ?B = [(channel_key x2, channel_data x2)]"
    by (simp add: channels_addChannel key new_HavenArchiveBuilder_def)
  have other: "attachments ?B = []" "serverMeta ?B = None" "auditLog ?B = None"
    by (simp_all add: addChannel_def updateDateRange_def new_HavenArchiveBuilder_def)
  have 6: "archive_files ?B m = [(channel_key x2, channel_data x2), (''manifest.json'', manifest_data m)]"
    unfolding archive_files_def collect_files_def assign_all_def ch other
    by (simp add: channel_key_not_manifest)
  have 7: "getChannelExports e \<lparr> reader_files = archive_files ?B m, reader_manifest = m \<rparr> = [x2]"
    if "JSON_parse_channel e (channel_data x2) = Some x2"
    using that by (simp add: getChannelExports_def 6 is_channel_path_channel_key manifest_not_channel_path)
  have 9: "sum_list (map ch_message_count
        (getChannelExports e \<lparr> reader_files = archive_files ?B m, reader_manifest = m \<rparr>))
      < message_count (build_manifest e ?B)"
    if "JSON_parse_channel e (channel_data x2) = Some x2" "0 < ch_message_count x1"
    using that by (simp add: 7 5)
  from 1 2 3 4 5 6 7 8 9 show ?thesis
    unfolding B by (intro conjI impI)
qed

theorem slug_collision_overwrites_witness:
  "map fst (archive_files (calls [AddChannel collision_first, AddChannel collision_second]
                                (new_HavenArchiveBuilder example_metadata)) example_manifest)
     = [''channels/a_b.json'', ''manifest.json'']
   \<and> getChannelExports (reading_back [] example_manifest [collision_second])
        \<lparr> reader_files = archive_files (calls [AddChannel collision_first, AddChannel collision_second]
                                               (new_HavenArchiveBuilder example_metadata)) example_manifest,
          reader_manifest = example_manifest \<rparr> = [collision_second]
   \<and> message_count (build_manifest (reading_back [] example_manifest [collision_second])
        (calls [AddChannel collision_first, AddChannel collision_second]
           (new_HavenArchiveBuilder example_metadata))) = 5
   \<and> date_range (build_manifest (reading_back [] example_manifest [collision_second])
        (calls [AddChannel collision_first, AddChannel collision_second]
           (new_HavenArchiveBuilder example_metadata)))
      = \<lparr> dr_from = ''2025-03-15T14:30:00Z'', dr_to = ''2025-04-02T00:00:00Z'' \<rparr>"
proof -
  have slug: "slug (ch_name (ch_channel collision_first)) = slug (ch_name (ch_channel collision_second))"
    by (simp add: collision_first_def collision_second_def example_channel_def slug_def slug_char_def)
  have dir: "channel_dir collision_first = channel_dir collision_second"
    by (simp add: collision_first_def collision_second_def example_channel_def channel_dir_def)
  have parse: "JSON_parse_channel (reading_back [] example_manifest [collision_second])
      (channel_data collision_second) = Some collision_second"
    by (simp add: reading_back_def)
  have key: "channel_key collision_second = ''channels/a_b.json''"
    by (simp add: collision_second_def example_channel_def channel_key_def channel_dir_def
        slug_def slug_char_def)
  have dates: "dr_from (ch_date_range collision_first) = ''2025-03-15T14:30:00Z''"
    "dr_from (ch_date_range collision_second) = ''2025-04-01T00:00:00Z''"
    "dr_to (ch_date_range collision_first) = ''2025-03-15T15:00:00Z''"
    "dr_to (ch_date_range collision_second) = ''2025-04-02T00:00:00Z''"
    "ch_message_count collision_first = 2" "ch_message_count collision_second = 3"
    by (simp_all add: collision_first_def collision_second_def example_channel_def)
  let ?e = "reading_back [] example_manifest [collision_second]"
  let ?B = "calls [AddChannel collision_first, AddChannel collision_second]
              (new_HavenArchiveBuilder example_metadata)"
  note T = slug_collision_overwrites [OF slug dir, of undefined ?e example_metadata example_manifest]
  have files: "archive_files ?B example_manifest
      = [(''channels/a_b.json'', channel_data collision_second),
         (''manifest.json'', manifest_data example_manifest)]"
    using T key by simp
  have read: "getChannelExports ?e
      \<lparr> reader_files = archive_files ?B example_manifest, reader_manifest = example_manifest \<rparr>
      = [collision_second]"
    using T parse by blast
  have count: "message_count (build_manifest ?e ?B) = 5"
    using T dates by simp
  have "dr_to (date_range (build_manifest ?e ?B)) = ''2025-04-02T00:00:00Z''"
    "dr_from (date_range (build_manifest ?e ?B)) = ''2025-03-15T14:30:00Z''"
    using T dates by simp_all
  then have range: "date_range (build_manifest ?e ?B)
      = \<lparr> dr_from = ''2025-03-15T14:30:00Z'', dr_to = ''2025-04-02T00:00:00Z'' \<rparr>"
    by (simp add: date_range_t.equality)
  show ?thesis
    using read count range by (simp add: files)
qed

section \<open>Properties of the reader and of the signature\<close>

lemma update_fresh: "k \<notin> fst ` set al \<Longrightarrow> AList.update k v al = al @ [(k, v)]"
  by (induction al) auto

lemma keys_assign_all:
  "fst ` set (assign_all f xs acc) = fst ` set xs \<union> fst ` set acc"
  unfolding assign_all_def
proof (induction xs arbitrary: acc)
  case Nil
  show ?case by simp
next
  case (Cons x xs)
  show ?case
    by (cases x) (simp add: Cons.IH dom_update)
qed

lemma distinct_assign_all:
  "distinct (map fst acc) \<Longrightarrow> distinct (map fst (assign_all f xs acc))"
  unfolding assign_all_def
  by (induction xs arbitrary: acc) (auto simp: distinct_update)

lemma assign_all_append:
  "distinct (map fst xs) \<Longrightarrow> fst ` set xs \<inter> fst ` set acc = {}
   \<Longrightarrow> assign_all f xs acc = acc @ map (\<lambda>(path, data). (path, f data)) xs"
  unfolding assign_all_def
proof (induction xs arbitrary: acc)
  case Nil
  show ?case by simp
next
  case (Cons x xs)
  obtain p d where x: "x = (p, d)"
    by (cases x)
  have fresh: "p \<notin> fst ` set acc"
    using Cons.prems(2) x by auto
  then have upd: "AList.update p (f d) acc = acc @ [(p, f d)]"
    by (rule update_fresh)
  have "fst ` set xs \<inter> fst ` set (acc @ [(p, f d)]) = {}"
    using Cons.prems x by auto
  with Cons.IH [of "acc @ [(p, f d)]"] Cons.prems(1) show ?case
    by (simp add: x upd)
qed

lemma assign_all_map:
  "distinct (map fst xs) \<Longrightarrow> assign_all f xs [] = map (\<lambda>(path, data). (path, f data)) xs"
  using assign_all_append [of xs "[]" f] by simp

lemma assign_all_id: "distinct (map fst xs) \<Longrightarrow> assign_all id xs [] = xs"
  by (simp add: assign_all_map)

lemma distinct_collect_files: "distinct (map fst (collect_files b))"
  by (simp add: collect_files_def Let_def distinct_assign_all distinct_update split: option.splits)

lemma keys_collect_files:
  "fst ` set (collect_files b) \<subseteq>
     fst ` set (channels b) \<union> fst ` set (attachments b) \<union> {''server.json'', ''audit-log.json''}"
  by (auto simp: collect_files_def Let_def keys_assign_all dom_update split: option.splits)

lemma call_keys:
  "''manifest.json'' \<notin> fst ` set (channels b) \<union> fst ` set (attachments b)
   \<Longrightarrow> ''manifest.json'' \<notin> fst ` set (channels (call c b)) \<union> fst ` set (attachments (call c b))"
proof (cases c)
  case (AddChannel x)
  assume "''manifest.json'' \<notin> fst ` set (channels b) \<union> fst ` set (attachments b)"
  moreover have "channel_key x \<noteq> ''manifest.json''"
    by (simp add: channel_key_def channel_dir_def)
  ultimately show ?thesis
    using AddChannel by (auto simp: addChannel_def updateDateRange_def dom_update)
qed (auto simp: addAttachment_def addServerMeta_def addAuditLog_def dom_update)

lemma calls_keys:
  "''manifest.json'' \<notin> fst ` set (channels b) \<union> fst ` set (attachments b)
   \<Longrightarrow> ''manifest.json'' \<notin> fst ` set (channels (calls cs b)) \<union> fst ` set (attachments (calls cs b))"
  unfolding calls_def
proof (induction cs arbitrary: b)
  case (Cons c cs)
  from Cons.IH [OF call_keys [OF Cons.prems]] show ?case by simp
qed simp

lemma call_metadata: "metadata (call c b) = metadata b"
  by (cases c) (simp_all add: addChannel_def updateDateRange_def addAttachment_def
      addServerMeta_def addAuditLog_def)

lemma calls_metadata: "metadata (calls cs b) = metadata b"
  unfolding calls_def by (induction cs arbitrary: b) (simp_all add: call_metadata)

lemma manifest_not_collected:
  "''manifest.json'' \<notin> fst ` set (collect_files (calls cs (new_HavenArchiveBuilder md)))"
proof -
  have "''manifest.json'' \<notin> fst ` set (channels (new_HavenArchiveBuilder md))
      \<union> fst ` set (attachments (new_HavenArchiveBuilder md))"
    by (simp add: new_HavenArchiveBuilder_def)
  from calls_keys [OF this, of cs] keys_collect_files [of "calls cs (new_HavenArchiveBuilder md)"]
  show ?thesis by auto
qed

lemma archive_files_eq:
  assumes "''manifest.json'' \<notin> fst ` set (collect_files b)"
  shows "archive_files b m = collect_files b @ [(''manifest.json'', manifest_data m)]"
proof -
  have "AList.update ''manifest.json'' (manifest_data m) (collect_files b)
      = collect_files b @ [(''manifest.json'', manifest_data m)]"
    using assms by (rule update_fresh)
  moreover have "distinct (map fst (collect_files b @ [(''manifest.json'', manifest_data m)]))"
    using assms distinct_collect_files [of b] by simp
  ultimately show ?thesis
    by (simp only: archive_files_def assign_all_id)
qed

lemma canonicalManifest_user_signature:
  "canonicalManifest (m \<lparr> user_signature := u \<rparr>) = canonicalManifest m"
  by (simp add: canonicalManifest_def canonicalObject_def manifest_object_def optional_def
      split: option.splits)

lemma files_build_manifest:
  "files (build_manifest e b) = map (\<lambda>(path, data). (path, file_hash_entry e data)) (collect_files b)"
  by (simp add: build_manifest_def assign_all_map distinct_collect_files)

lemma file_issues_own_hash:
  assumes "map_of fs path = Some data"
  shows "file_issues e fs (path, file_hash_entry e data) = []"
  using assms by (simp add: file_issues_def file_hash_entry_def)

lemma no_file_issues:
  assumes "''manifest.json'' \<notin> fst ` set (collect_files b)"
  shows "concat (map (file_issues e (archive_files b m)) (files (build_manifest e b))) = []"
proof -
  have "file_issues e (archive_files b m) (path, file_hash_entry e data) = []"
    if "(path, data) \<in> set (collect_files b)" for path data
  proof -
    have "map_of (collect_files b) path = Some data"
      using that distinct_collect_files [of b] by simp
    then have "map_of (archive_files b m) path = Some data"
      by (simp add: archive_files_eq [OF assms] map_add_Some_iff)
    then show ?thesis
      by (rule file_issues_own_hash)
  qed
  then show ?thesis
    unfolding files_build_manifest by (auto simp: concat_eq_Nil_conv)
qed

lemma signed_manifest_cases:
  assumes "signed_manifest e b signingKey = Some m"
  obtains "signingKey = None" "m = build_manifest e b"
  | key s where "signingKey = Some key" "signManifest e (build_manifest e b) key = Some s"
      "m = (build_manifest e b) \<lparr> user_signature := Some s \<rparr>"
  using assms by (auto simp: signed_manifest_def Let_def split: option.splits)

lemma user_signature_build_manifest: "user_signature (build_manifest e b) = None"
  by (simp add: build_manifest_def)

lemma exported_by_build_manifest: "exported_by (build_manifest e b) = exportedBy (metadata b)"
  by (simp add: build_manifest_def)

lemma signed_manifest_fields:
  assumes "signed_manifest e b signingKey = Some m"
  shows "files m = files (build_manifest e b)"
    and "exported_by m = exportedBy (metadata b)"
    and "canonicalManifest m = canonicalManifest (build_manifest e b)"
    and "user_signature m = (case signingKey of None \<Rightarrow> None
          | Some key \<Rightarrow> signManifest e (build_manifest e b) key)"
  using assms
  by (cases rule: signed_manifest_cases;
      simp add: canonicalManifest_user_signature user_signature_build_manifest
        exported_by_build_manifest)+

lemma verifyManifest_own_signature:
  assumes "signs_for e privateKey publicKey" "base64_inverse e"
    and "signManifest e m0 privateKey = Some s" "canonicalManifest m = canonicalManifest m0"
  shows "verifyManifest e m s publicKey"
proof -
  let ?message = "TextEncoder_encode (canonicalManifest m0)"
  obtain signature where sig: "crypto_sign_detached e ?message privateKey = Some signature"
      "crypto_sign_verify_detached e signature ?message publicKey = Some True"
    using assms(1) unfolding signs_for_def by blast
  have "s = toBase64 e signature"
    using assms(3) sig(1) by (simp add: signManifest_def)
  then have "fromBase64 e s = Some signature"
    using assms(2) by (simp add: base64_inverse_def)
  then show ?thesis
    by (simp add: verifyManifest_def assms(4) sig(2))
qed

lemma byte_of_unat_mod: "(of_nat (unat (b :: byte) mod 256) :: byte) = b"
proof -
  have "unat b < 256"
    using unsigned_less [of b, where ?'a = nat] by simp
  then show ?thesis
    by simp
qed

lemma toy_base64: "fromBase64 toy_sodium (toBase64 toy_sodium data) = Some data"
  by (simp add: toy_sodium_def comp_def byte_of_unat_mod)

lemma reading_back_crypto:
  "crypto_sign_detached (reading_back fs m xs) = crypto_sign_detached toy_sodium"
  "crypto_sign_verify_detached (reading_back fs m xs) = crypto_sign_verify_detached toy_sodium"
  "crypto_hash_sha256 (reading_back fs m xs) = crypto_hash_sha256 toy_sodium"
  "toBase64 (reading_back fs m xs) = toBase64 toy_sodium"
  "fromBase64 (reading_back fs m xs) = fromBase64 toy_sodium"
  "now (reading_back fs m xs) = now toy_sodium"
  "zipSync (reading_back fs m xs) = zipSync toy_sodium"
  by (simp_all add: reading_back_def)

lemma toy_signs: "signs_for toy_sodium k k" "binds_key toy_sodium k k" "base64_inverse toy_sodium"
  by (simp_all add: signs_for_def binds_key_def base64_inverse_def toy_base64)
    (simp_all add: toy_sodium_def)

lemma reading_back_signs:
  "signs_for (reading_back fs m xs) k k" "binds_key (reading_back fs m xs) k k"
  "base64_inverse (reading_back fs m xs)"
  using toy_signs(1) [of k] toy_signs(2) [of k] toy_signs(3)
  by (simp_all add: signs_for_def binds_key_def base64_inverse_def reading_back_crypto)

lemma reading_back_hash: "file_hash_entry (reading_back fs m xs) = file_hash_entry toy_sodium"
  by (rule ext) (simp add: file_hash_entry_def computeFileHash_def reading_back_crypto)

lemma reading_back_build_manifest:
  "build_manifest (reading_back fs m xs) b = build_manifest toy_sodium b"
  by (simp add: build_manifest_def reading_back_hash reading_back_crypto cong: option.case_cong)

lemma reading_back_signManifest:
  "signManifest (reading_back fs m xs) m' k = signManifest toy_sodium m' k"
  by (simp add: signManifest_def reading_back_crypto cong: option.case_cong)

lemma reading_back_signed_manifest:
  "signed_manifest (reading_back fs m xs) b sk = signed_manifest toy_sodium b sk"
  by (simp add: signed_manifest_def Let_def reading_back_build_manifest reading_back_signManifest
      cong: option.case_cong)

lemma toy_signManifest: "\<exists>s. signManifest toy_sodium m k = Some s"
  by (simp add: signManifest_def toy_sodium_def)

lemma toy_signed_manifest: "\<exists>m. signed_manifest toy_sodium b k = Some m"
proof (cases k)
  case None
  then show ?thesis by (simp add: signed_manifest_def)
next
  case (Some key)
  obtain s where "signManifest toy_sodium (build_manifest toy_sodium b) key = Some s"
    using toy_signManifest by blast
  with Some show ?thesis by (simp add: signed_manifest_def)
qed

lemma written_manifest_signed:
  "signed_manifest (example_library md' k') (calls example_calls (new_HavenArchiveBuilder md)) k
     = Some (written_manifest md k)"
proof -
  let ?b = "calls example_calls (new_HavenArchiveBuilder md)"
  obtain m where m: "signed_manifest toy_sodium ?b k = Some m"
    using toy_signed_manifest by blast
  then have "written_manifest md k = m"
    by (simp add: written_manifest_def)
  moreover have "signed_manifest (example_library md' k') ?b k = signed_manifest toy_sodium ?b k"
    unfolding example_library_def by (rule reading_back_signed_manifest)
  ultimately show ?thesis
    using m by simp
qed

lemma example_library_reads:
  "unzipSync (example_library md k) data
     = Some (archive_files (calls example_calls (new_HavenArchiveBuilder md)) (written_manifest md k))"
  "JSON_parse_manifest (example_library md k) (manifest_data (written_manifest md k))
     = Some (written_manifest md k)"
  by (simp_all add: example_library_def reading_back_def)

lemma toy_verifyManifest:
  assumes "signManifest toy_sodium m0 k = Some s" "canonicalManifest m = canonicalManifest m0"
  shows "verifyManifest toy_sodium m s pk \<longleftrightarrow> pk = k"
proof -
  let ?message = "TextEncoder_encode (canonicalManifest m0)"
  have "s = toBase64 toy_sodium (k @ ?message)"
    using assms(1) by (simp add: signManifest_def) (simp add: toy_sodium_def)
  then have "fromBase64 toy_sodium s = Some (k @ ?message)"
    by (simp add: toy_base64)
  moreover have "crypto_sign_verify_detached toy_sodium (k @ ?message) ?message pk
      = Some (k @ ?message = pk @ ?message)"
    by (simp add: toy_sodium_def)
  ultimately show ?thesis
    by (auto simp: verifyManifest_def assms(2))
qed

lemma reading_back_verifyManifest:
  "verifyManifest (reading_back fs m' xs) m s pk = verifyManifest toy_sodium m s pk"
  by (simp add: verifyManifest_def reading_back_crypto cong: option.case_cong)

lemma verify_valid_iff_no_issues:
  "verify e r = Inr res \<Longrightarrow> valid res \<longleftrightarrow> issues res = []"
  by (auto simp: verify_def Let_def split: option.splits)

lemma verify_throws_iff:
  "(\<exists>x. verify e r = Inl x) \<longleftrightarrow>
     truthy (user_signature (reader_manifest r)) \<noteq> None
     \<and> fromBase64 e (identity_key (exported_by (reader_manifest r))) = None"
  by (auto simp: verify_def Let_def split: option.splits)

text \<open>
  C3, as amended. Take an archive that \<open>build\<close> produced from any sequence of
  \<open>addChannel\<close>, \<open>addAttachment\<close>, \<open>addServerMeta\<close> and \<open>addAuditLog\<close> calls on a new
  builder, without a signing key, or with the private key of a key pair whose public key
  is what \<open>exportedBy.identity_key\<close> decodes to. If the archiver unpacks what it packed and
  the JSON parser reads back the manifest that was written, the reader \<open>fromBlob\<close> makes
  of the bytes has \<open>verify()\<close> return \<open>valid = true\<close> and no issues.
\<close>

theorem untampered_archive_verifies:
  assumes written: "signed_manifest e (calls cs (new_HavenArchiveBuilder md)) signingKey = Some m"
    and zip: "unzipSync e (zipSync e (archive_files (calls cs (new_HavenArchiveBuilder md)) m))
        = Some (archive_files (calls cs (new_HavenArchiveBuilder md)) m)"
    and parse: "JSON_parse_manifest e (manifest_data m) = Some m"
    and key: "signingKey = None
        \<or> (\<exists>privateKey publicKey. signingKey = Some privateKey
              \<and> signs_for e privateKey publicKey
              \<and> fromBase64 e (identity_key (exportedBy md)) = Some publicKey
              \<and> base64_inverse e)"
  shows "\<exists>data r. build e (calls cs (new_HavenArchiveBuilder md)) signingKey = Inr data
     \<and> fromBlob e data = Inr r
     \<and> verify e r = Inr \<lparr> valid = True, issues = [] \<rparr>"
proof -
  let ?b = "calls cs (new_HavenArchiveBuilder md)"
  let ?fs = "archive_files ?b m"
  let ?r = "\<lparr> reader_files = ?fs, reader_manifest = m \<rparr>"
  have fresh: "''manifest.json'' \<notin> fst ` set (collect_files ?b)"
    by (rule manifest_not_collected)
  have built: "build e ?b signingKey = Inr (zipSync e ?fs)"
    by (simp add: build_def written)
  have "map_of ?fs ''manifest.json'' = Some (manifest_data m)"
    using fresh by (simp add: archive_files_eq map_add_Some_iff map_of_eq_None_iff)
  then have opened: "fromBlob e (zipSync e ?fs) = Inr ?r"
    by (simp add: fromBlob_def zip parse)
  have issues: "concat (map (file_issues e ?fs) (files m)) = []"
    using no_file_issues [OF fresh] by (simp add: signed_manifest_fields(1) [OF written])
  have "verify e ?r = Inr \<lparr> valid = True, issues = [] \<rparr>"
  proof (cases "truthy (user_signature m)")
    case None
    then show ?thesis
      by (simp add: verify_def issues)
  next
    case (Some s)
    then have s: "user_signature m = Some s"
      by (auto simp: truthy_def split: option.splits if_splits)
    then obtain privateKey publicKey where k: "signingKey = Some privateKey"
        "signs_for e privateKey publicKey"
        "fromBase64 e (identity_key (exportedBy md)) = Some publicKey" "base64_inverse e"
      using key signed_manifest_fields(4) [OF written] by auto
    have "signManifest e (build_manifest e ?b) privateKey = Some s"
      using s k(1) signed_manifest_fields(4) [OF written] by simp
    from verifyManifest_own_signature [OF k(2) k(4) this signed_manifest_fields(3) [OF written]]
    have "verifyManifest e m s publicKey" .
    moreover have "fromBase64 e (identity_key (exported_by m)) = Some publicKey"
      by (simp add: signed_manifest_fields(2) [OF written] calls_metadata
          new_HavenArchiveBuilder_def k(3))
    ultimately show ?thesis
      by (simp add: verify_def issues Some)
  qed
  with built opened show ?thesis
    by blast
qed

theorem untampered_archive_verifies_witness:
  "\<exists>data r.
     build (example_library example_metadata (Some example_key))
       (calls example_calls (new_HavenArchiveBuilder example_metadata)) (Some example_key) = Inr data
     \<and> fromBlob (example_library example_metadata (Some example_key)) data = Inr r
     \<and> verify (example_library example_metadata (Some example_key)) r
         = Inr \<lparr> valid = True, issues = [] \<rparr>"
proof -
  let ?e = "example_library example_metadata (Some example_key)"
  have "fromBase64 ?e (identity_key (exportedBy example_metadata)) = Some example_key"
    by (simp add: example_library_def reading_back_crypto)
      (simp add: toy_sodium_def example_metadata_def example_key_def)
  moreover have "signs_for ?e example_key example_key" "base64_inverse ?e"
    unfolding example_library_def by (rule reading_back_signs)+
  ultimately show ?thesis
    by (intro untampered_archive_verifies [OF written_manifest_signed example_library_reads]) blast
qed

text \<open>
  C3 as it is stated fails: the builder signs with whatever key it is given and does not
  compare it with \<open>exportedBy.identity_key\<close>. With the metadata of the tests, whose
  identity key is the empty string, and a signing key, the archive is produced and read
  back, and \<open>verify()\<close> reports the signature.
\<close>

theorem signed_archive_with_other_identity_key:
  "signs_for (example_library unkeyed_metadata (Some example_key)) example_key example_key
   \<and> base64_inverse (example_library unkeyed_metadata (Some example_key))
   \<and> (\<exists>data r.
        build (example_library unkeyed_metadata (Some example_key))
          (calls example_calls (new_HavenArchiveBuilder unkeyed_metadata)) (Some example_key) = Inr data
        \<and> fromBlob (example_library unkeyed_metadata (Some example_key)) data = Inr r
        \<and> verify (example_library unkeyed_metadata (Some example_key)) r
            = Inr \<lparr> valid = False, issues = [''User signature verification failed''] \<rparr>)"
proof -
  let ?e = "example_library unkeyed_metadata (Some example_key)"
  let ?b = "calls example_calls (new_HavenArchiveBuilder unkeyed_metadata)"
  let ?m = "written_manifest unkeyed_metadata (Some example_key)"
  let ?fs = "archive_files ?b ?m"
  let ?r = "\<lparr> reader_files = ?fs, reader_manifest = ?m \<rparr>"
  have written: "signed_manifest ?e ?b (Some example_key) = Some ?m"
    by (rule written_manifest_signed)
  have fresh: "''manifest.json'' \<notin> fst ` set (collect_files ?b)"
    by (rule manifest_not_collected)
  have built: "build ?e ?b (Some example_key) = Inr (zipSync ?e ?fs)"
    by (simp add: build_def written)
  have "map_of ?fs ''manifest.json'' = Some (manifest_data ?m)"
    using fresh by (simp add: archive_files_eq map_add_Some_iff map_of_eq_None_iff)
  then have opened: "fromBlob ?e (zipSync ?e ?fs) = Inr ?r"
    by (simp add: fromBlob_def example_library_reads)
  have issues: "concat (map (file_issues ?e ?fs) (files ?m)) = []"
    using no_file_issues [OF fresh] by (simp add: signed_manifest_fields(1) [OF written])
  obtain s where s: "signManifest toy_sodium (build_manifest toy_sodium ?b) example_key = Some s"
    using toy_signManifest by blast
  then have "s = toBase64 toy_sodium (example_key @ TextEncoder_encode (canonicalManifest (build_manifest toy_sodium ?b)))"
    by (simp add: signManifest_def) (simp add: toy_sodium_def)
  then have "s \<noteq> []"
    by (simp add: toy_sodium_def example_key_def)
  have sig: "user_signature ?m = Some s"
    using signed_manifest_fields(4) [OF written] s
    by (simp add: example_library_def reading_back_build_manifest reading_back_signManifest)
  have canon: "canonicalManifest ?m = canonicalManifest (build_manifest toy_sodium ?b)"
    using signed_manifest_fields(3) [OF written]
    by (simp add: example_library_def reading_back_build_manifest)
  have key: "fromBase64 ?e (identity_key (exported_by ?m)) = Some []"
    by (simp add: signed_manifest_fields(2) [OF written] calls_metadata new_HavenArchiveBuilder_def
        example_library_def reading_back_crypto)
      (simp add: toy_sodium_def unkeyed_metadata_def)
  have "\<not> verifyManifest ?e ?m s []"
    unfolding example_library_def reading_back_verifyManifest
    using toy_verifyManifest [OF s canon, of "[]"] by (simp add: example_key_def)
  then have "verify ?e ?r = Inr \<lparr> valid = False, issues = [''User signature verification failed''] \<rparr>"
    using \<open>s \<noteq> []\<close> by (simp add: verify_def issues sig key truthy_def)
  with built opened reading_back_signs(1,3) show ?thesis
    unfolding example_library_def by blast
qed

text \<open>
  C4. The specification says that \<open>verify()\<close> never raises and reports every problem in
  \<open>issues\<close>. In the code the identity key is decoded before \<open>verifyManifest\<close> is called,
  outside its \<open>try\<close> block: when the manifest has a signature and the identity key does
  not decode, \<open>verify()\<close> throws. (It throws in no other case, and when it returns,
  \<open>valid\<close> holds exactly when \<open>issues\<close> is empty: \<open>verify_throws_iff\<close>,
  \<open>verify_valid_iff_no_issues\<close>.)
\<close>

theorem verify_throws_on_undecodable_identity_key:
  assumes "user_signature (reader_manifest r) = Some s" "s \<noteq> []"
    and "fromBase64 e (identity_key (exported_by (reader_manifest r))) = None"
  shows "verify e r = Inl Thrown"
  using assms by (simp add: verify_def truthy_def)

theorem verify_throws_on_undecodable_identity_key_witness:
  "user_signature (reader_manifest undecodable_reader) = Some ''AAAA''
   \<and> identity_key (exported_by (reader_manifest undecodable_reader)) = ''%%%''
   \<and> fromBase64 strict_sodium ''%%%'' = None
   \<and> verify strict_sodium undecodable_reader = Inl Thrown"
proof -
  have sig: "user_signature (reader_manifest undecodable_reader) = Some ''AAAA''"
    and key: "identity_key (exported_by (reader_manifest undecodable_reader)) = ''%%%''"
    by (simp_all add: undecodable_reader_def)
  have none: "fromBase64 strict_sodium ''%%%'' = None"
    by (simp add: strict_sodium_def base64_char_def)
  from verify_throws_on_undecodable_identity_key [OF sig _ none [folded key]]
  have "verify strict_sodium undecodable_reader = Inl Thrown"
    by simp
  with sig key none show ?thesis
    by simp
qed

text \<open>
  C5. For a key pair of the signature scheme and every manifest, \<open>signManifest\<close> returns a
  signature that \<open>verifyManifest\<close> accepts under the public key of the pair and rejects
  under every other public key.
\<close>

theorem sign_then_verify:
  assumes "signs_for e privateKey publicKey" "binds_key e privateKey publicKey" "base64_inverse e"
  shows "\<exists>s. signManifest e m privateKey = Some s
     \<and> verifyManifest e m s publicKey
     \<and> (\<forall>otherKey. otherKey \<noteq> publicKey \<longrightarrow> \<not> verifyManifest e m s otherKey)"
proof -
  let ?message = "TextEncoder_encode (canonicalManifest m)"
  obtain signature where sig: "crypto_sign_detached e ?message privateKey = Some signature"
    using assms(1) unfolding signs_for_def by blast
  then have s: "signManifest e m privateKey = Some (toBase64 e signature)"
    by (simp add: signManifest_def)
  have ok: "verifyManifest e m (toBase64 e signature) publicKey"
    using verifyManifest_own_signature [OF assms(1,3) s] by simp
  have decoded: "fromBase64 e (toBase64 e signature) = Some signature"
    using assms(3) by (simp add: base64_inverse_def)
  have "\<not> verifyManifest e m (toBase64 e signature) otherKey" if "otherKey \<noteq> publicKey" for otherKey
  proof -
    have "crypto_sign_verify_detached e signature ?message otherKey \<noteq> Some True"
      using assms(2) sig that unfolding binds_key_def by blast
    then show ?thesis
      by (auto simp: verifyManifest_def decoded split: option.splits)
  qed
  with s ok show ?thesis
    by blast
qed

theorem sign_then_verify_witness:
  "\<exists>s. signManifest toy_sodium example_manifest example_key = Some s
     \<and> verifyManifest toy_sodium example_manifest s example_key
     \<and> \<not> verifyManifest toy_sodium example_manifest s [1, 2, 3]"
proof -
  have "[1, 2, 3] \<noteq> example_key"
    by (simp add: example_key_def)
  with sign_then_verify [OF toy_signs(1) [of example_key] toy_signs(2) [of example_key]
      toy_signs(3), of example_manifest]
  show ?thesis
    by blast
qed

section \<open>What \<open>verify\<close> reports\<close>

text \<open>
  \<open>verify()\<close> throws only when the manifest has a signature and the identity key does not
  decode; when it returns, \<open>valid\<close> holds exactly when \<open>issues\<close> is empty.
\<close>

lemma verify_result_consistent:
  "(case verify e r of
      Inl x \<Rightarrow> x = Thrown \<and> truthy (user_signature (reader_manifest r)) \<noteq> None
                \<and> fromBase64 e (identity_key (exported_by (reader_manifest r))) = None
    | Inr res \<Rightarrow> valid res = (issues res = []))"
  by (simp add: verify_def Let_def split: option.splits)

lemma file_issues_in_verify:
  assumes "verify e r = Inr res" "entry \<in> set (files (reader_manifest r))"
    "issue \<in> set (file_issues e (reader_files r) entry)"
  shows "issue \<in> set (issues res)" "\<not> valid res"
proof -
  have "issue \<in> set (concat (map (file_issues e (reader_files r)) (files (reader_manifest r))))"
    using assms(2,3) by auto
  with assms(1) show "issue \<in> set (issues res)"
    by (auto simp: verify_def Let_def split: option.splits)
  then show "\<not> valid res"
    using verify_valid_iff_no_issues [OF assms(1)] by auto
qed

text \<open>
  A file that the manifest lists and the archive lacks, and a file whose hash is not the
  listed one, each make \<open>valid\<close> false and leave their message in \<open>issues\<close> (properties 8
  and 9 of the specification).
\<close>

lemma verify_reports_tampering:
  assumes "verify e r = Inr res" "(path, expected) \<in> set (files (reader_manifest r))"
  shows "(map_of (reader_files r) path = None \<longrightarrow>
            \<not> valid res \<and> ''Missing file: '' @ path \<in> set (issues res))
     \<and> (\<forall>fileData. map_of (reader_files r) path = Some fileData
            \<and> computeFileHash e fileData \<noteq> fe_sha256 expected \<longrightarrow>
            \<not> valid res
            \<and> ''Hash mismatch for '' @ path @ '': expected '' @ fe_sha256 expected @ '', got ''
                 @ computeFileHash e fileData \<in> set (issues res))"
proof (intro conjI impI allI)
  assume "map_of (reader_files r) path = None"
  then have "''Missing file: '' @ path \<in> set (file_issues e (reader_files r) (path, expected))"
    by (simp add: file_issues_def)
  from file_issues_in_verify [OF assms this]
  show "\<not> valid res" "''Missing file: '' @ path \<in> set (issues res)"
    by simp_all
next
  fix fileData
  assume "map_of (reader_files r) path = Some fileData
      \<and> computeFileHash e fileData \<noteq> fe_sha256 expected"
  then have "''Hash mismatch for '' @ path @ '': expected '' @ fe_sha256 expected @ '', got ''
      @ computeFileHash e fileData \<in> set (file_issues e (reader_files r) (path, expected))"
    by (simp add: file_issues_def)
  from file_issues_in_verify [OF assms this]
  show "\<not> valid res"
    "''Hash mismatch for '' @ path @ '': expected '' @ fe_sha256 expected @ '', got ''
      @ computeFileHash e fileData \<in> set (issues res)"
    by simp_all
qed

lemma verify_reports_tampering_example:
  "verify toy_sodium tampered_reader
     = Inr \<lparr> valid = False,
             issues = [''Hash mismatch for channels/general.json: expected 00000000, got 01020300'',
                       ''Missing file: channels/nonexistent.json''] \<rparr>"
proof -
  have v: "verify toy_sodium tampered_reader
     = Inr \<lparr> valid = False,
             issues = [''Hash mismatch for channels/general.json: expected 00000000, got 01020300'',
                       ''Missing file: channels/nonexistent.json''] \<rparr>"
    by code_simp
  have "(''channels/nonexistent.json'', \<lparr> fe_sha256 = ''abc'', fe_size = 100 \<rparr>)
      \<in> set (files (reader_manifest tampered_reader))"
    by (simp add: tampered_reader_def)
  from verify_reports_tampering [OF v this] show ?thesis
    by (simp add: v)
qed

text \<open>\<open>manifest.json\<close> is never among the files a built manifest lists.\<close>

lemma manifest_never_listed:
  "''manifest.json'' \<notin> fst ` set (files (build_manifest e (calls cs (new_HavenArchiveBuilder md))))"
proof -
  have "fst ` set (files (build_manifest e b)) = fst ` set (collect_files b)" for b
    by (simp add: build_manifest_def keys_assign_all)
  then show ?thesis
    using manifest_not_collected [of cs md] by simp
qed

lemma call_dotted:
  assumes "\<forall>P \<in> fst ` set (channels b) \<union> fst ` set (attachments b). CHR ''.'' \<in> set P"
  shows "\<forall>P \<in> fst ` set (channels (call c b)) \<union> fst ` set (attachments (call c b)).
           CHR ''.'' \<in> set P"
proof (cases c)
  case (AddChannel x)
  have "CHR ''.'' \<in> set (channel_key x)"
    by (simp add: channel_key_def)
  then show ?thesis
    using AddChannel assms by (auto simp: addChannel_def updateDateRange_def dom_update)
qed (use assms in \<open>auto simp: addAttachment_def addServerMeta_def addAuditLog_def dom_update\<close>)

lemma calls_dotted:
  "\<forall>P \<in> fst ` set (channels b) \<union> fst ` set (attachments b). CHR ''.'' \<in> set P
   \<Longrightarrow> \<forall>P \<in> fst ` set (channels (calls cs b)) \<union> fst ` set (attachments (calls cs b)).
         CHR ''.'' \<in> set P"
  unfolding calls_def
proof (induction cs arbitrary: b)
  case (Cons c cs)
  from Cons.IH [OF call_dotted [OF Cons.prems]] show ?case by simp
qed simp

text \<open>No path of a manifest the builder writes is the name of a signed top-level key:
  every path has a dot, and no key has one.\<close>

lemma built_paths_not_signed_keys:
  assumes "P \<in> fst ` set (files (build_manifest e (calls cs (new_HavenArchiveBuilder md))))"
  shows "P \<notin> set (signed_keys m)"
proof -
  let ?b = "calls cs (new_HavenArchiveBuilder md)"
  have "fst ` set (files (build_manifest e ?b)) = fst ` set (collect_files ?b)"
    by (simp add: build_manifest_def keys_assign_all)
  with assms have "P \<in> fst ` set (channels ?b) \<union> fst ` set (attachments ?b)
      \<union> {''server.json'', ''audit-log.json''}"
    using keys_collect_files [of ?b] by auto
  moreover have "\<forall>P \<in> fst ` set (channels ?b) \<union> fst ` set (attachments ?b). CHR ''.'' \<in> set P"
    by (rule calls_dotted) (simp add: new_HavenArchiveBuilder_def)
  ultimately have "CHR ''.'' \<in> set P"
    by auto
  then show ?thesis
    using signed_keys_subset [of m] by auto
qed

section \<open>Properties of the sender-key ratchet\<close>

lemma le_u32_u32_le: "le_u32 (u32_le w) = w"
proof (rule bit_word_eqI)
  fix n
  assume "n < LENGTH(32)"
  then consider "n < 8" | "8 \<le> n" "n < 16" | "16 \<le> n" "n < 24" | "24 \<le> n" "n < 32"
    by fastforce
  then show "bit (le_u32 (u32_le w)) n \<longleftrightarrow> bit w n"
    by cases (auto simp: u32_le_def bit_simps)
qed

lemma u32_le_example: "u32_le 0x01020304 = [4, 3, 2, 1]" "u32_le 42 = [42, 0, 0, 0]"
  by (simp_all add: u32_le_def)

lemma length_u32_le [simp]: "length (u32_le w) = 4"
  by (simp add: u32_le_def)

lemma nat_base_256:
  fixes n :: nat
  shows "n mod 256 + 256 * (n div 256 mod 256) + 65536 * (n div 65536 mod 256)
           + 16777216 * (n div 16777216) = n"
proof -
  have 1: "n = n mod 256 + 256 * (n div 256)"
    by simp
  have 2: "n div 256 = n div 256 mod 256 + 256 * (n div 65536)"
    using div_mult2_eq [of n 256 256] by simp
  have 3: "n div 65536 = n div 65536 mod 256 + 256 * (n div 16777216)"
    using div_mult2_eq [of n 65536 256] by simp
  show ?thesis
    using 1 2 3 by linarith
qed

lemma unat_u32_le:
  "u32_le w = [b0, b1, b2, b3] \<Longrightarrow>
     unat w = unat b0 + 256 * unat b1 + 65536 * unat b2 + 16777216 * unat b3"
proof -
  assume "u32_le w = [b0, b1, b2, b3]"
  then have b: "b0 = ucast w" "b1 = ucast (drop_bit 8 w)" "b2 = ucast (drop_bit 16 w)"
      "b3 = ucast (drop_bit 24 w)"
    by (simp_all add: u32_le_def)
  have "unat w < 4294967296"
    using unsigned_less [of w, where ?'a = nat] by simp
  then show ?thesis
    unfolding b
    by (simp only: unsigned_ucast_eq unat_drop_bit_eq)
      (simp add: drop_bit_eq_div take_bit_eq_mod nat_base_256)
qed

lemma advance_times_fields:
  "distribution_id (advance_times p n state) = distribution_id state"
  "chain_index (advance_times p n state) = chain_index state + of_nat n"
  by (induction n arbitrary: state) (simp_all add: advance_def)

lemma fst_advance: "fst (advance p state) = hmac_sha256 p (chain_key state) [1]"
  by (simp add: advance_def)

lemma advance_times_Suc:
  "advance_times p (Suc n) state = snd (advance p (advance_times p n state))"
  by (induction n arbitrary: state) simp_all

lemma sender_key_encrypt_state:
  "snd (sender_key_encrypt p nonce state plaintext) = advance_times p 1 state"
  by (simp add: sender_key_encrypt_def advance_def Let_def)

lemma encrypt_all_state: "snd (encrypt_all p xs state) = advance_times p (length xs) state"
proof (induction xs arbitrary: state)
  case Nil
  show ?case by simp
next
  case (Cons x xs)
  obtain nonce plaintext where x: "x = (nonce, plaintext)"
    by (cases x)
  show ?case
    using Cons.IH [of "snd (sender_key_encrypt p nonce state plaintext)"]
    by (simp add: x split_beta sender_key_encrypt_state Let_def)
qed

lemma encrypt_all_last:
  "fst (encrypt_all p (xs @ [(nonce, plaintext)]) state)
     = fst (encrypt_all p xs state)
       @ [fst (sender_key_encrypt p nonce (advance_times p (length xs) state) plaintext)]"
proof (induction xs arbitrary: state)
  case Nil
  show ?case by (simp add: split_beta Let_def)
next
  case (Cons x xs)
  obtain n t where x: "x = (n, t)"
    by (cases x)
  show ?case
    using Cons.IH [of "snd (sender_key_encrypt p n state t)"]
    by (simp add: x split_beta sender_key_encrypt_state Let_def)
qed

lemma wire_parts:
  fixes p nonce state plaintext
  defines "wire \<equiv> fst (sender_key_encrypt p nonce state plaintext)"
  assumes "length (distribution_id state) = 16" "length nonce = 24"
  shows "take 1 wire = [3]"
    and "take 16 (drop 1 wire) = distribution_id state"
    and "take 4 (drop 17 wire) = u32_le (chain_index state)"
    and "take 24 (drop 21 wire) = nonce"
    and "drop 45 wire = secretbox p (hmac_sha256 p (chain_key state) [1]) nonce plaintext"
  using assms(2,3) unfolding wire_def
  by (simp_all add: sender_key_encrypt_def advance_def Let_def)

lemma uint_plus_small:
  fixes w :: u32
  assumes "unat w + n < 4294967296"
  shows "uint (w + of_nat n) - uint w = int n"
proof -
  have "unat (w + of_nat n) = unat w + n"
    using assms by (simp add: unat_word_ariths unat_of_nat)
  then have "uint (w + of_nat n) = uint w + int n"
    by (metis of_nat_add uint_nat)
  then show ?thesis
    by simp
qed

lemma decrypt_after_skips:
  assumes "secretbox_opens p" "length (distribution_id R) = 16" "length nonce = 24"
    and "n \<le> 256" "unat (chain_index R) + n < 4294967296"
  shows "wire_skip (fst (sender_key_encrypt p nonce (advance_times p n R) plaintext)) R = int n"
    and "sender_key_decrypt p (fst (sender_key_encrypt p nonce (advance_times p n R) plaintext)) R
       = (Inr plaintext, advance_times p (Suc n) R)"
proof -
  let ?S = "advance_times p n R"
  let ?wire = "fst (sender_key_encrypt p nonce ?S plaintext)"
  have id: "length (distribution_id ?S) = 16"
    by (simp add: advance_times_fields assms(2))
  note parts = wire_parts [of ?S nonce p plaintext, OF id assms(3)]
  show skip: "wire_skip ?wire R = int n"
    using uint_plus_small [OF assms(5)]
    by (simp add: wire_skip_def parts(3) le_u32_u32_le advance_times_fields)
  have "secretbox_open p (hmac_sha256 p (chain_key ?S) [1]) (take 24 (drop 21 ?wire)) (drop 45 ?wire)
      = Some plaintext"
    using assms(1) by (simp add: parts secretbox_opens_def)
  then show "sender_key_decrypt p ?wire R = (Inr plaintext, advance_times p (Suc n) R)"
    using assms(4) parts(1,2)
    by (simp add: sender_key_decrypt_def skip MAX_SKIP_def advance_times_fields(1)
        advance_times_Suc split_beta fst_advance del: advance_times.simps)
qed

lemma cloneSenderKey_eq [simp]: "cloneSenderKey sk = sk"
  by (simp add: cloneSenderKey_def)

lemma toy_secretbox_opens: "secretbox_opens toy_primitives"
  by (simp add: secretbox_opens_def toy_primitives_def)

text \<open>
  C6. For a sender-key state with a 16-byte distribution id and a 32-byte chain key,
  \<open>create_skdm_payload\<close> is 52 bytes: the distribution id, the chain key, and the chain
  index as four bytes, least significant first. \<open>parse_skdm_payload\<close> of the payload is the
  state. On any buffer \<open>parse_skdm_payload\<close> fails exactly when the buffer is shorter than 52
  bytes, and then with \<open>SkdmTooShort\<close>; a buffer of at least 52 bytes is accepted and parsed
  as its first 52 bytes.
\<close>

theorem skdm_payload_roundtrip:
  assumes "length (distribution_id s) = 16" "length (chain_key s) = 32"
  shows "length (create_skdm_payload s) = 52
     \<and> take 16 (create_skdm_payload s) = distribution_id s
     \<and> take 32 (drop 16 (create_skdm_payload s)) = chain_key s
     \<and> (\<exists>b0 b1 b2 b3. drop 48 (create_skdm_payload s) = [b0, b1, b2, b3]
          \<and> unat (chain_index s) = unat b0 + 256 * unat b1 + 65536 * unat b2 + 16777216 * unat b3)
     \<and> parse_skdm_payload (create_skdm_payload s) = Inr s
     \<and> (parse_skdm_payload buf = Inl SkdmTooShort \<longleftrightarrow> length buf < 52)
     \<and> (\<forall>e. parse_skdm_payload buf = Inl e \<longrightarrow> e = SkdmTooShort \<and> length buf < 52)
     \<and> (52 \<le> length buf \<longrightarrow>
          (\<exists>s'. parse_skdm_payload buf = Inr s')
          \<and> parse_skdm_payload buf = parse_skdm_payload (take 52 buf))"
proof -
  have len: "length (create_skdm_payload s) = 52"
    using assms by (simp add: create_skdm_payload_def)
  have id: "take 16 (create_skdm_payload s) = distribution_id s"
    and key: "take 32 (drop 16 (create_skdm_payload s)) = chain_key s"
    and index: "drop 48 (create_skdm_payload s) = u32_le (chain_index s)"
    using assms by (simp_all add: create_skdm_payload_def)
  obtain b0 b1 b2 b3 where b: "u32_le (chain_index s) = [b0, b1, b2, b3]"
    by (simp add: u32_le_def)
  have le: "\<exists>b0 b1 b2 b3. drop 48 (create_skdm_payload s) = [b0, b1, b2, b3]
      \<and> unat (chain_index s) = unat b0 + 256 * unat b1 + 65536 * unat b2 + 16777216 * unat b3"
    using unat_u32_le [OF b] b index by auto
  have "take 4 (drop 48 (create_skdm_payload s)) = u32_le (chain_index s)"
    by (simp add: index)
  then have parsed: "parse_skdm_payload (create_skdm_payload s) = Inr s"
    by (simp add: parse_skdm_payload_def len id key le_u32_u32_le)
  have short: "parse_skdm_payload buf = Inl SkdmTooShort \<longleftrightarrow> length buf < 52"
    and only: "\<forall>e. parse_skdm_payload buf = Inl e \<longrightarrow> e = SkdmTooShort \<and> length buf < 52"
    by (auto simp: parse_skdm_payload_def)
  have long: "(\<exists>s'. parse_skdm_payload buf = Inr s')
      \<and> parse_skdm_payload buf = parse_skdm_payload (take 52 buf)" if "52 \<le> length buf"
  proof -
    have "take 4 (drop 48 (take 52 buf)) = take 4 (drop 48 buf)"
      by (simp add: drop_take)
    with that show ?thesis
      by (simp add: parse_skdm_payload_def drop_take min_def)
  qed
  from len id key le parsed short only long show ?thesis
    by blast
qed

theorem skdm_payload_roundtrip_witness:
  "length (create_skdm_payload example_state) = 52
   \<and> drop 48 (create_skdm_payload example_state) = [42, 0, 0, 0]
   \<and> parse_skdm_payload (create_skdm_payload example_state) = Inr example_state
   \<and> parse_skdm_payload (replicate 51 0) = Inl SkdmTooShort
   \<and> parse_skdm_payload (create_skdm_payload example_state @ [1, 2, 3])
       = parse_skdm_payload (take 52 (create_skdm_payload example_state @ [1, 2, 3]))"
proof -
  have len: "length (distribution_id example_state) = 16" "length (chain_key example_state) = 32"
    by (simp_all add: example_state_def)
  have "drop 48 (create_skdm_payload example_state) = [42, 0, 0, 0]"
    by (simp add: create_skdm_payload_def example_state_def u32_le_def)
  moreover have "52 \<le> length (create_skdm_payload example_state @ [1, 2, 3])"
    by (simp add: create_skdm_payload_def example_state_def)
  ultimately show ?thesis
    using skdm_payload_roundtrip [OF len, of "replicate 51 0"]
      skdm_payload_roundtrip [OF len, of "create_skdm_payload example_state @ [1, 2, 3]"]
    by simp
qed

text \<open>
  C7. Let the receiver state \<open>R\<close> be a clone of the sender state \<open>S\<close> taken before the
  sender encrypts \<open>msg\<close> (the distribution id of 16 bytes, the nonce of 24, the secretbox
  opening what it boxed). Decrypting the wire message with \<open>R\<close> returns \<open>msg\<close>, and the
  sender and the receiver both end at the chain index before the call plus one.
\<close>

theorem self_decrypt:
  assumes "secretbox_opens p" "length (distribution_id S) = 16" "length nonce = 24"
    and "R = cloneSenderKey S"
  shows "fst (sender_key_decrypt p (fst (sender_key_encrypt p nonce S msg)) R) = Inr msg
     \<and> chain_index (snd (sender_key_encrypt p nonce S msg)) = chain_index S + 1
     \<and> chain_index (snd (sender_key_decrypt p (fst (sender_key_encrypt p nonce S msg)) R))
         = chain_index S + 1"
proof -
  have "sender_key_decrypt p (fst (sender_key_encrypt p nonce (advance_times p 0 S) msg)) S
      = (Inr msg, advance_times p (Suc 0) S)"
    by (rule decrypt_after_skips(2) [OF assms(1,2,3)])
      (use unsigned_less [of "chain_index S", where ?'a = nat] in simp_all)
  then show ?thesis
    by (simp add: assms(4) sender_key_encrypt_state advance_def)
qed

theorem self_decrypt_witness:
  "fst (sender_key_decrypt toy_primitives
          (fst (sender_key_encrypt toy_primitives example_nonce example_state hello_group))
          (cloneSenderKey example_state)) = Inr hello_group
   \<and> chain_index (snd (sender_key_encrypt toy_primitives example_nonce example_state hello_group)) = 43
   \<and> chain_index (snd (sender_key_decrypt toy_primitives
          (fst (sender_key_encrypt toy_primitives example_nonce example_state hello_group))
          (cloneSenderKey example_state))) = 43"
  using self_decrypt [OF toy_secretbox_opens, of example_state example_nonce
      "cloneSenderKey example_state" hello_group]
  by (simp add: example_state_def example_nonce_def)

text \<open>
  C8. For a wire message that passes the checks of the type byte and of the distribution
  id, let \<open>skip\<close> be its chain index minus the receiver's, as an integer. The call fails
  with \<open>AlreadyConsumed\<close> exactly when \<open>skip < 0\<close> and with \<open>TooManySkipped\<close> exactly when
  \<open>skip > 256\<close>; otherwise the receiver is advanced \<open>skip + 1\<close> steps, to the message's index
  plus one. The message a sender encrypts after 256 others, none of them decrypted, has
  \<open>skip = 256\<close> and decrypts: the receiver returns its plaintext and ends 257 steps on.
\<close>

theorem skip_bounds:
  assumes "take 1 wire = [3]" "take 16 (drop 1 wire) = distribution_id R"
  shows "(fst (sender_key_decrypt p wire R) = Inl AlreadyConsumed \<longleftrightarrow> wire_skip wire R < 0)
     \<and> (fst (sender_key_decrypt p wire R) = Inl TooManySkipped \<longleftrightarrow> wire_skip wire R > 256)
     \<and> (0 \<le> wire_skip wire R \<and> wire_skip wire R \<le> 256 \<longrightarrow>
          snd (sender_key_decrypt p wire R) = advance_times p (nat (wire_skip wire R) + 1) R
          \<and> chain_index (snd (sender_key_decrypt p wire R)) = le_u32 (take 4 (drop 17 wire)) + 1)
     \<and> (secretbox_opens p \<and> length (distribution_id R) = 16 \<and> length nonce = 24
          \<and> length sent = 256 \<and> unat (chain_index R) + 256 < 4294967296 \<longrightarrow>
          wire_skip (last (fst (encrypt_all p (sent @ [(nonce, plaintext)]) (cloneSenderKey R)))) R = 256
          \<and> sender_key_decrypt p
               (last (fst (encrypt_all p (sent @ [(nonce, plaintext)]) (cloneSenderKey R)))) R
             = (Inr plaintext, advance_times p 257 R)
          \<and> chain_index (advance_times p 257 R) = chain_index R + 257)"
proof -
  let ?skip = "wire_skip wire R"
  have consumed: "fst (sender_key_decrypt p wire R) = Inl AlreadyConsumed \<longleftrightarrow> ?skip < 0"
    using assms
    by (auto simp: sender_key_decrypt_def Let_def MAX_SKIP_def split_beta split: option.splits)
  have skipped: "fst (sender_key_decrypt p wire R) = Inl TooManySkipped \<longleftrightarrow> ?skip > 256"
    using assms
    by (auto simp: sender_key_decrypt_def Let_def MAX_SKIP_def split_beta split: option.splits)
  have advanced: "snd (sender_key_decrypt p wire R) = advance_times p (nat ?skip + 1) R
      \<and> chain_index (snd (sender_key_decrypt p wire R)) = le_u32 (take 4 (drop 17 wire)) + 1"
    if "0 \<le> ?skip" "?skip \<le> 256"
  proof -
    have state: "snd (sender_key_decrypt p wire R) = advance_times p (Suc (nat ?skip)) R"
      using assms that
      by (simp add: sender_key_decrypt_def MAX_SKIP_def split_beta advance_times_Suc Let_def
          del: advance_times.simps split: option.splits)
    have "uint (chain_index R) + ?skip = uint (le_u32 (take 4 (drop 17 wire)))"
      by (simp add: wire_skip_def)
    then have "chain_index R + of_nat (nat ?skip) = le_u32 (take 4 (drop 17 wire))"
      using that(1)
      by (metis int_nat_eq of_int_add of_int_of_nat_eq word_of_int_uint)
    then show ?thesis
      by (simp add: state advance_times_fields(2) del: advance_times.simps)
  qed
  have genuine: "wire_skip (last (fst (encrypt_all p (sent @ [(nonce, plaintext)]) (cloneSenderKey R)))) R = 256
      \<and> sender_key_decrypt p
           (last (fst (encrypt_all p (sent @ [(nonce, plaintext)]) (cloneSenderKey R)))) R
         = (Inr plaintext, advance_times p 257 R)
      \<and> chain_index (advance_times p 257 R) = chain_index R + 257"
    if "secretbox_opens p" "length (distribution_id R) = 16" "length nonce = 24"
      "length sent = 256" "unat (chain_index R) + 256 < 4294967296"
  proof -
    have "last (fst (encrypt_all p (sent @ [(nonce, plaintext)]) (cloneSenderKey R)))
        = fst (sender_key_encrypt p nonce (advance_times p 256 R) plaintext)"
      by (simp add: encrypt_all_last that(4) del: advance_times.simps)
    moreover have "Suc 256 = 257"
      by simp
    ultimately show ?thesis
      using decrypt_after_skips [OF that(1,2,3) _ that(5), of plaintext]
      by (simp add: advance_times_fields(2) del: advance_times.simps)
  qed
  from consumed skipped advanced genuine show ?thesis
    by blast
qed

theorem skip_bounds_witness:
  "fst (sender_key_decrypt toy_primitives (example_wire 40) example_state) = Inl AlreadyConsumed
   \<and> fst (sender_key_decrypt toy_primitives (example_wire 299) example_state) = Inl TooManySkipped
   \<and> sender_key_decrypt toy_primitives
        (last (fst (encrypt_all toy_primitives
                     (replicate 256 (example_nonce, hello_group) @ [(example_nonce, hello_group)])
                     (cloneSenderKey example_state))))
        example_state
      = (Inr hello_group, advance_times toy_primitives 257 example_state)
   \<and> chain_index (advance_times toy_primitives 257 example_state) = 299"
proof -
  have len: "length (distribution_id (example_state \<lparr> chain_index := i \<rparr>)) = 16"
      "length example_nonce = 24" for i
    by (simp_all add: example_state_def example_nonce_def)
  have id: "distribution_id (example_state \<lparr> chain_index := i \<rparr>) = distribution_id example_state" for i
    by simp
  note parts = wire_parts [where p = toy_primitives and plaintext = hello_group, OF len,
      folded example_wire_def]
  have skip: "wire_skip (example_wire i) example_state = uint i - 42" for i
    by (simp add: wire_skip_def parts(3) le_u32_u32_le example_state_def)
  have index: "unat (chain_index example_state) + 256 < 4294967296"
    "length (distribution_id example_state) = 16" "chain_index example_state = 42"
    by (simp_all add: example_state_def)
  from skip_bounds [where p = toy_primitives, OF parts(1) parts(2) [unfolded id], of 40]
  have 1: "fst (sender_key_decrypt toy_primitives (example_wire 40) example_state) = Inl AlreadyConsumed"
    by (simp add: skip)
  from skip_bounds [where p = toy_primitives, OF parts(1) parts(2) [unfolded id], of 299]
  have 2: "fst (sender_key_decrypt toy_primitives (example_wire 299) example_state) = Inl TooManySkipped"
    by (simp add: skip)
  from skip_bounds [where p = toy_primitives and nonce = example_nonce
      and sent = "replicate 256 (example_nonce, hello_group)" and plaintext = hello_group,
      OF parts(1) parts(2) [unfolded id], of 42]
  have 3: "sender_key_decrypt toy_primitives
        (last (fst (encrypt_all toy_primitives
                     (replicate 256 (example_nonce, hello_group) @ [(example_nonce, hello_group)])
                     (cloneSenderKey example_state))))
        example_state
      = (Inr hello_group, advance_times toy_primitives 257 example_state)
    \<and> chain_index (advance_times toy_primitives 257 example_state) = 299"
    using toy_secretbox_opens len(2) index by simp
  from 1 2 3 show ?thesis
    by simp
qed

end
